theory Spec2Isabelle
  imports Complex_Main
begin

section \<open>Dates\<close>

text \<open>
  The program computes with \<^verbatim>\<open>datetime.date\<close> values of the Python standard library.
  A date is its three fields; the constructor accepts exactly the triples described by
  \<open>valid_date\<close> and raises \<^verbatim>\<open>ValueError\<close> otherwise. The arithmetic below follows the
  library's own algorithms (\<^verbatim>\<open>_ymd2ord\<close>, \<^verbatim>\<open>_ord2ymd\<close>, \<^verbatim>\<open>date.__add__\<close>,
  \<^verbatim>\<open>date.weekday\<close>), including the \<^verbatim>\<open>OverflowError\<close> of date arithmetic that leaves
  the range 0001-01-01 .. 9999-12-31.
\<close>

datatype error =
  OverflowError | ValueError | StreamlitValueBelowMinError | StreamlitValueAboveMaxError

record date =
  year :: int
  month :: int
  day :: int

definition MINYEAR :: int where "MINYEAR = 1"
definition MAXYEAR :: int where "MAXYEAR = 9999"
definition MAXORDINAL :: int where "MAXORDINAL = 3652059"

definition is_leap :: "int \<Rightarrow> bool" where
  "is_leap y = (y mod 4 = 0 \<and> (y mod 100 \<noteq> 0 \<or> y mod 400 = 0))"

definition DAYS_IN_MONTH :: "int \<Rightarrow> int" where
  "DAYS_IN_MONTH m =
     (if m = 1 then 31 else if m = 2 then 28 else if m = 3 then 31 else if m = 4 then 30
      else if m = 5 then 31 else if m = 6 then 30 else if m = 7 then 31 else if m = 8 then 31
      else if m = 9 then 30 else if m = 10 then 31 else if m = 11 then 30 else 31)"

definition DAYS_BEFORE_MONTH :: "int \<Rightarrow> int" where
  "DAYS_BEFORE_MONTH m =
     (if m = 1 then 0 else if m = 2 then 31 else if m = 3 then 59 else if m = 4 then 90
      else if m = 5 then 120 else if m = 6 then 151 else if m = 7 then 181 else if m = 8 then 212
      else if m = 9 then 243 else if m = 10 then 273 else if m = 11 then 304 else 334)"

definition days_before_year :: "int \<Rightarrow> int" where
  "days_before_year y = (let v = y - 1 in v * 365 + v div 4 - v div 100 + v div 400)"

definition days_in_month :: "int \<Rightarrow> int \<Rightarrow> int" where
  "days_in_month y m = (if m = 2 \<and> is_leap y then 29 else DAYS_IN_MONTH m)"

definition days_before_month :: "int \<Rightarrow> int \<Rightarrow> int" where
  "days_before_month y m = DAYS_BEFORE_MONTH m + (if m > 2 \<and> is_leap y then 1 else 0)"

definition ymd2ord :: "int \<Rightarrow> int \<Rightarrow> int \<Rightarrow> int" where
  "ymd2ord y m d = days_before_year y + days_before_month y m + d"

text \<open>\<^verbatim>\<open>_ord2ymd\<close>: the 400/100/4/1-year cycle decomposition, then the month estimate
  \<^verbatim>\<open>(n + 50) >> 5\<close>, corrected downwards when it overshoots.\<close>

definition ord2ymd :: "int \<Rightarrow> date" where
  "ord2ymd n0 =
     (let n = n0 - 1;
          n400 = n div 146097; n = n mod 146097;
          y = n400 * 400 + 1;
          n100 = n div 36524; n = n mod 36524;
          n4 = n div 1461; n = n mod 1461;
          n1 = n div 365; n = n mod 365;
          y = y + n100 * 100 + n4 * 4 + n1
      in if n1 = 4 \<or> n100 = 4 then \<lparr>year = y - 1, month = 12, day = 31\<rparr>
         else
           let leapyear = (n1 = 3 \<and> (n4 \<noteq> 24 \<or> n100 = 3));
               m = (n + 50) div 32;
               preceding = DAYS_BEFORE_MONTH m + (if m > 2 \<and> leapyear then 1 else 0)
           in if preceding > n
              then let m = m - 1;
                       preceding = preceding - (DAYS_IN_MONTH m + (if m = 2 \<and> leapyear then 1 else 0))
                   in \<lparr>year = y, month = m, day = n - preceding + 1\<rparr>
              else \<lparr>year = y, month = m, day = n - preceding + 1\<rparr>)"

definition valid_date :: "date \<Rightarrow> bool" where
  "valid_date d = (MINYEAR \<le> year d \<and> year d \<le> MAXYEAR \<and> 1 \<le> month d \<and> month d \<le> 12
                   \<and> 1 \<le> day d \<and> day d \<le> days_in_month (year d) (month d))"

text \<open>\<^verbatim>\<open>date(y, m, d)\<close>: the constructor checks its fields.\<close>

definition mk_date :: "int \<Rightarrow> int \<Rightarrow> int \<Rightarrow> error + date" where
  "mk_date y m d =
     (if valid_date \<lparr>year = y, month = m, day = d\<rparr> then Inr \<lparr>year = y, month = m, day = d\<rparr>
      else Inl ValueError)"

definition toordinal :: "date \<Rightarrow> int" where
  "toordinal d = ymd2ord (year d) (month d) (day d)"

text \<open>\<^verbatim>\<open>d + timedelta(days=k)\<close>; \<^verbatim>\<open>d - timedelta(days=k)\<close> is \<open>date_add_days d (- k)\<close>.\<close>

definition date_add_days :: "date \<Rightarrow> int \<Rightarrow> error + date" where
  "date_add_days d k =
     (let n = toordinal d + k
      in if 0 < n \<and> n \<le> MAXORDINAL then Inr (ord2ymd n) else Inl OverflowError)"

text \<open>\<^verbatim>\<open>d.weekday()\<close>: Monday is 0, Sunday is 6.\<close>

definition weekday :: "date \<Rightarrow> int" where
  "weekday d = (toordinal d + 6) mod 7"

text \<open>\<^verbatim>\<open>d.strftime("%A")\<close>, in the C locale the interpreter starts in.\<close>

definition day_names :: "string list" where
  "day_names = [''Monday'', ''Tuesday'', ''Wednesday'', ''Thursday'', ''Friday'',
                ''Saturday'', ''Sunday'']"

definition strftime_A :: "date \<Rightarrow> string" where
  "strftime_A d = day_names ! nat (weekday d)"

text \<open>Comparison of dates is the comparison of the triples (year, month, day).\<close>

definition date_lt :: "date \<Rightarrow> date \<Rightarrow> bool" where
  "date_lt a b = (year a < year b \<or> (year a = year b \<and>
                    (month a < month b \<or> (month a = month b \<and> day a < day b))))"

definition date_le :: "date \<Rightarrow> date \<Rightarrow> bool" where
  "date_le a b = (date_lt a b \<or> a = b)"

section \<open>Strings\<close>

text \<open>
  A Python \<^verbatim>\<open>str\<close> is modelled as a \<open>string\<close> whose characters are the code points
  below 256. \<^verbatim>\<open>s.split(',')\<close> cuts at every comma; \<^verbatim>\<open>s.strip()\<close> removes the
  characters of \<^verbatim>\<open>str.isspace\<close> from both ends.
\<close>

fun split_acc :: "'a \<Rightarrow> 'a list \<Rightarrow> 'a list \<Rightarrow> 'a list list" where
  "split_acc sep acc [] = [rev acc]"
| "split_acc sep acc (c # cs) =
     (if c = sep then rev acc # split_acc sep [] cs else split_acc sep (c # acc) cs)"

definition split_comma :: "string \<Rightarrow> string list" where
  "split_comma s = split_acc (CHR '','') [] s"

definition isspace :: "char \<Rightarrow> bool" where
  "isspace c = (let n = (of_char c :: nat)
                in (9 \<le> n \<and> n \<le> 13) \<or> (28 \<le> n \<and> n \<le> 32) \<or> n = 133 \<or> n = 160)"

definition isdigit_char :: "char \<Rightarrow> bool" where
  "isdigit_char c = (let n = (of_char c :: nat)
                     in (48 \<le> n \<and> n \<le> 57) \<or> n = 178 \<or> n = 179 \<or> n = 185)"

definition strip :: "string \<Rightarrow> string" where
  "strip s = rev (dropWhile isspace (rev (dropWhile isspace s)))"

text \<open>\<^verbatim>\<open>s.isdigit()\<close>: every character is a digit and there is at least one.\<close>

definition isdigit :: "string \<Rightarrow> bool" where
  "isdigit s = (s \<noteq> [] \<and> list_all isdigit_char s)"

section \<open>Tables\<close>

text \<open>
  The rows of the tables \<^verbatim>\<open>tasks\<close> and \<^verbatim>\<open>goals\<close> created by \<^verbatim>\<open>create_table\<close>.
  A nullable column is an \<open>option\<close>. The columns \<^verbatim>\<open>created_at\<close>, of which the one of
  \<^verbatim>\<open>tasks\<close> only orders the listing of \<^verbatim>\<open>get_tasks\<close>, are left out, and so are the
  length limits of the \<^verbatim>\<open>VARCHAR\<close> columns.
\<close>

datatype status = Pending | Completed
datatype priority = Low | Medium | High
datatype task_type = One_time | Daily | Weekly | Monthly
datatype goal_period = Weekly_goal | Monthly_goal

record task =
  task_id :: nat
  title :: string
  description :: string
  status :: status
  priority :: priority
  task_type :: task_type
  week_days :: "string option"
  monthly_date :: "int option"
  end_date :: "date option"
  last_completed :: "date option"
  completed_at :: "date option"

record goal =
  goal_id :: nat
  period :: goal_period
  target_count :: int
  start_date :: date
  goal_end_date :: date

text \<open>The database: the rows of both tables and their \<^verbatim>\<open>AUTO_INCREMENT\<close> counters.\<close>

record db =
  tasks :: "task list"
  next_task_id :: nat
  goals :: "goal list"
  next_goal_id :: nat

section \<open>CRUD operations\<close>

definition add_task ::
  "string \<Rightarrow> string \<Rightarrow> priority \<Rightarrow> task_type \<Rightarrow> string option \<Rightarrow> int option \<Rightarrow> date option
     \<Rightarrow> db \<Rightarrow> db" where
  "add_task ttl desc pr ty wd mdate ed s =
     s\<lparr>tasks := tasks s @
          [\<lparr>task_id = next_task_id s, title = ttl, description = desc, status = Pending,
            priority = pr, task_type = ty, week_days = wd, monthly_date = mdate, end_date = ed,
            last_completed = None, completed_at = None\<rparr>],
       next_task_id := Suc (next_task_id s)\<rparr>"

text \<open>
  \<^verbatim>\<open>update_task_status\<close>: with a completion date the three columns are written; without
  one (\<^verbatim>\<open>None\<close> is falsy) the statement is \<^verbatim>\<open>UPDATE tasks SET status=%s WHERE id=%s\<close>.
\<close>

definition update_task_status :: "nat \<Rightarrow> status \<Rightarrow> date option \<Rightarrow> db \<Rightarrow> db" where
  "update_task_status tid new_status lc s =
     (case lc of
        Some d \<Rightarrow>
          s\<lparr>tasks := map (\<lambda>t. if task_id t = tid
                                then t\<lparr>status := new_status, last_completed := Some d,
                                       completed_at := Some d\<rparr>
                                else t) (tasks s)\<rparr>
      | None \<Rightarrow>
          s\<lparr>tasks := map (\<lambda>t. if task_id t = tid then t\<lparr>status := new_status\<rparr> else t)
                         (tasks s)\<rparr>)"

text \<open>The handler of the button "Toggle Status" of a listed task \<open>t\<close>.\<close>

definition toggle_status :: "date \<Rightarrow> task \<Rightarrow> db \<Rightarrow> db" where
  "toggle_status today t s =
     (let new_status = (if status t = Pending then Completed else Pending);
          lc = (if new_status = Completed then Some today else None)
      in update_task_status (task_id t) new_status lc s)"

text \<open>The handler of the button "Reset" of a recurring task, whose comment in the source
  reads "For recurring tasks, allow resetting last completion date".\<close>

definition reset_task :: "task \<Rightarrow> db \<Rightarrow> db" where
  "reset_task t s = update_task_status (task_id t) Pending None s"

section \<open>Goal tracking\<close>

text \<open>
  The period window. \<^verbatim>\<open>save_goal\<close>, \<^verbatim>\<open>get_current_goal\<close> and \<^verbatim>\<open>get_completed_count\<close>
  each carry the same block of code for it; it is written once here.
\<close>

definition period_window :: "goal_period \<Rightarrow> date \<Rightarrow> error + (date \<times> date)" where
  "period_window p today =
     (if p = Weekly_goal then
        (case date_add_days today (- weekday today) of
           Inl e \<Rightarrow> Inl e
         | Inr s \<Rightarrow>
             (case date_add_days s 6 of
                Inl e \<Rightarrow> Inl e
              | Inr e \<Rightarrow> Inr (s, e)))
      else
        (case mk_date (year today) (month today) 1 of
           Inl e \<Rightarrow> Inl e
         | Inr s \<Rightarrow>
             (case (if month today = 12 then mk_date (year today + 1) 1 1
                    else mk_date (year today) (month today + 1) 1) of
                Inl e \<Rightarrow> Inl e
              | Inr nxt \<Rightarrow>
                  (case date_add_days nxt (- 1) of
                     Inl e \<Rightarrow> Inl e
                   | Inr e \<Rightarrow> Inr (s, e)))))"

definition in_window :: "goal_period \<Rightarrow> date \<Rightarrow> date \<Rightarrow> goal \<Rightarrow> bool" where
  "in_window p s e g = (period g = p \<and> start_date g = s \<and> goal_end_date g = e)"

definition save_goal :: "date \<Rightarrow> goal_period \<Rightarrow> int \<Rightarrow> db \<Rightarrow> error + db" where
  "save_goal today p target s =
     (case period_window p today of
        Inl e \<Rightarrow> Inl e
      | Inr (sd, ed) \<Rightarrow>
          (case find (in_window p sd ed) (goals s) of
             Some existing \<Rightarrow>
               Inr (s\<lparr>goals := map (\<lambda>g. if goal_id g = goal_id existing
                                          then g\<lparr>target_count := target\<rparr> else g) (goals s)\<rparr>)
           | None \<Rightarrow>
               Inr (s\<lparr>goals := goals s @
                      [\<lparr>goal_id = next_goal_id s, period = p, target_count = target,
                        start_date = sd, goal_end_date = ed\<rparr>],
                    next_goal_id := Suc (next_goal_id s)\<rparr>)))"

definition get_current_goal :: "date \<Rightarrow> goal_period \<Rightarrow> db \<Rightarrow> error + goal option" where
  "get_current_goal today p s =
     (case period_window p today of
        Inl e \<Rightarrow> Inl e
      | Inr (sd, ed) \<Rightarrow> Inr (find (in_window p sd ed) (goals s)))"

text \<open>\<^verbatim>\<open>completed_at BETWEEN %s AND %s\<close> is false for a \<^verbatim>\<open>NULL\<close> date.\<close>

definition between :: "date option \<Rightarrow> date \<Rightarrow> date \<Rightarrow> bool" where
  "between x lo hi = (case x of None \<Rightarrow> False | Some d \<Rightarrow> date_le lo d \<and> date_le d hi)"

definition get_completed_count :: "date \<Rightarrow> goal_period \<Rightarrow> db \<Rightarrow> error + nat" where
  "get_completed_count today p s =
     (case period_window p today of
        Inl e \<Rightarrow> Inl e
      | Inr (sd, ed) \<Rightarrow>
          Inr (length (filter (\<lambda>t. status t = Completed \<and> between (completed_at t) sd ed)
                              (tasks s))))"

text \<open>
  The goal widget of \<^verbatim>\<open>main\<close>, in a run in which the button "Set Goal" is not pressed
  (pressing it saves the goal and restarts the script): the progress shown for the current
  goal, \<open>None\<close> when no goal is set for the period. Before the progress is computed,
  \<^verbatim>\<open>st.number_input(min_value=1, max_value=100, value=default_target)\<close> is given the
  stored target, or 5 when there is no goal, and raises when that value lies outside its
  bounds. Python's \<^verbatim>\<open>/\<close> is the correctly rounded quotient; the model keeps the exact
  quotient, and rounding commutes with the clamp at \<^verbatim>\<open>1.0\<close>.
\<close>

definition goal_progress :: "date \<Rightarrow> goal_period \<Rightarrow> db \<Rightarrow> error + real option" where
  "goal_progress today p s =
     (case get_current_goal today p s of
        Inl e \<Rightarrow> Inl e
      | Inr current_goal \<Rightarrow>
          (let default_target = (case current_goal of None \<Rightarrow> 5 | Some g \<Rightarrow> target_count g)
           in if default_target < 1 then Inl StreamlitValueBelowMinError
              else if 100 < default_target then Inl StreamlitValueAboveMaxError
              else
                (case get_completed_count today p s of
                   Inl e \<Rightarrow> Inl e
                 | Inr completed_count \<Rightarrow>
                     (case current_goal of
                        None \<Rightarrow> Inr None
                      | Some g \<Rightarrow>
                          Inr (Some (min (real completed_count / real_of_int (target_count g)) 1))))))"

section \<open>Dashboard statistics\<close>

text \<open>The loop of \<^verbatim>\<open>task_stats\<close> that counts the overdue tasks, one step per task.\<close>

definition overdue_step :: "date \<Rightarrow> nat \<Rightarrow> task \<Rightarrow> nat" where
  "overdue_step today overdue t =
     (if status t \<noteq> Pending then overdue
      else if task_type t = One_time then
        (case end_date t of
           None \<Rightarrow> overdue
         | Some d \<Rightarrow> if date_lt d today then overdue + 1 else overdue)
      else
        (case last_completed t of
           None \<Rightarrow> overdue + 1
         | Some d \<Rightarrow> if date_lt d today then overdue + 1 else overdue))"

record stats =
  completed_metric :: nat
  pending_metric :: nat
  overdue_metric :: nat

definition task_stats :: "date \<Rightarrow> task list \<Rightarrow> stats" where
  "task_stats today ts =
     \<lparr>completed_metric = length (filter (\<lambda>t. status t = Completed) ts),
      pending_metric = length (filter (\<lambda>t. status t = Pending) ts),
      overdue_metric = foldl (overdue_step today) 0 ts\<rparr>"

text \<open>"Overdue" in the words of the specification: a recurring task whose last-completed
  date is not today.\<close>

definition overdue_spec :: "date \<Rightarrow> task \<Rightarrow> bool" where
  "overdue_spec today t =
     (status t = Pending \<and>
      (if task_type t = One_time
       then (case end_date t of None \<Rightarrow> False | Some d \<Rightarrow> date_lt d today)
       else last_completed t \<noteq> Some today))"

text \<open>"Overdue" as the code counts it: a recurring task never completed, or last completed
  strictly before today.\<close>

definition overdue_amended :: "date \<Rightarrow> task \<Rightarrow> bool" where
  "overdue_amended today t =
     (status t = Pending \<and>
      (if task_type t = One_time
       then (case end_date t of None \<Rightarrow> False | Some d \<Rightarrow> date_lt d today)
       else (case last_completed t of None \<Rightarrow> True | Some d \<Rightarrow> date_lt d today)))"

section \<open>Tasks of the day\<close>

text \<open>The list \<^verbatim>\<open>tasks_today\<close> that \<^verbatim>\<open>send_daily_summary\<close> assembles from its four
  queries, over the rows of the table.\<close>

definition tasks_today :: "date \<Rightarrow> task list \<Rightarrow> task list" where
  "tasks_today today ts =
     (let one_time_tasks = filter (\<lambda>t. task_type t = One_time \<and> end_date t = Some today) ts;
          daily_tasks = filter (\<lambda>t. task_type t = Daily) ts;
          day_name = strftime_A today;
          weekly_tasks = filter (\<lambda>t. task_type t = Weekly) ts;
          weekly_today = filter (\<lambda>t. case week_days t of
                                        None \<Rightarrow> False
                                      | Some w \<Rightarrow> w \<noteq> [] \<and> day_name \<in> set (split_comma w))
                                weekly_tasks;
          day_of_month = day today;
          monthly_tasks = filter (\<lambda>t. task_type t = Monthly \<and> monthly_date t = Some day_of_month) ts
      in one_time_tasks @ daily_tasks @ weekly_today @ monthly_tasks)"

text \<open>"Active today" in the words of the specification.\<close>

definition active_today_spec :: "date \<Rightarrow> task \<Rightarrow> bool" where
  "active_today_spec today t =
     (case task_type t of
        One_time \<Rightarrow> end_date t = Some today
      | Daily \<Rightarrow> True
      | Weekly \<Rightarrow> (case week_days t of
                    None \<Rightarrow> False
                  | Some w \<Rightarrow> strftime_A today \<in> set (split_comma w))
      | Monthly \<Rightarrow> monthly_date t = Some (day today))"

section \<open>Calendar view\<close>

text \<open>
  \<^verbatim>\<open>create_calendar_view\<close> up to the dictionary \<^verbatim>\<open>tasks_by_date\<close> that the grid displays.
  The dictionary is the list of its items in insertion order, one per date of
  \<^verbatim>\<open>date_range\<close>.
\<close>

fun sequence :: "(error + 'a) list \<Rightarrow> error + 'a list" where
  "sequence [] = Inr []"
| "sequence (x # xs) =
     (case x of
        Inl e \<Rightarrow> Inl e
      | Inr v \<Rightarrow> (case sequence xs of Inl e \<Rightarrow> Inl e | Inr vs \<Rightarrow> Inr (v # vs)))"

definition date_range :: "date \<Rightarrow> error + date list" where
  "date_range today = sequence (map (\<lambda>x. date_add_days today (int x)) [0..<15])"

definition dict_append :: "date \<Rightarrow> task \<Rightarrow> (date \<times> task list) list \<Rightarrow> (date \<times> task list) list" where
  "dict_append d t tbd = map (\<lambda>(k, v). if k = d then (k, v @ [t]) else (k, v)) tbd"

definition place_task :: "date list \<Rightarrow> (date \<times> task list) list \<Rightarrow> task \<Rightarrow> (date \<times> task list) list" where
  "place_task dr tbd t =
     (case task_type t of
        One_time \<Rightarrow>
          (case end_date t of
             None \<Rightarrow> tbd
           | Some e \<Rightarrow> if e \<in> fst ` set tbd then dict_append e t tbd else tbd)
      | Daily \<Rightarrow> foldl (\<lambda>acc d. dict_append d t acc) tbd dr
      | Weekly \<Rightarrow>
          (case week_days t of
             None \<Rightarrow> tbd
           | Some w \<Rightarrow>
               if w = [] then tbd
               else let weekdays = split_comma w
                    in foldl (\<lambda>acc d. if strftime_A d \<in> set weekdays then dict_append d t acc else acc)
                             tbd dr)
      | Monthly \<Rightarrow>
          (case monthly_date t of
             None \<Rightarrow> tbd
           | Some m \<Rightarrow>
               if m = 0 then tbd
               else foldl (\<lambda>acc d. if day d = m then dict_append d t acc else acc) tbd dr))"

datatype calendar = No_tasks_info | Grid "(date \<times> task list) list"

definition create_calendar_view :: "date \<Rightarrow> task list \<Rightarrow> error + calendar" where
  "create_calendar_view today ts =
     (let active_tasks = filter (\<lambda>t. end_date t \<noteq> None) ts
      in if active_tasks = [] then Inr No_tasks_info
         else (case date_range today of
                 Inl e \<Rightarrow> Inl e
               | Inr dr \<Rightarrow> Inr (Grid (foldl (place_task dr) (map (\<lambda>d. (d, [])) dr) active_tasks))))"

section \<open>The form "Add New Task"\<close>

datatype notice = St_success string | St_error string

record add_form =
  form_title :: string
  form_desc :: string
  form_priority :: priority
  form_task_type :: task_type
  form_days :: "string list"
  form_day_of_month :: int
  form_end_date :: date

fun join_comma :: "string list \<Rightarrow> string" where
  "join_comma [] = []"
| "join_comma [x] = x"
| "join_comma (x # y # ys) = x @ '','' @ join_comma (y # ys)"

text \<open>The handler of the button "Add Task": the new table and the notice shown.\<close>

definition add_task_clicked :: "add_form \<Rightarrow> db \<Rightarrow> db \<times> notice" where
  "add_task_clicked f s =
     (let wd = (if form_task_type f = Weekly then join_comma (form_days f) else []);
          mdate = (if form_task_type f = Monthly then Some (form_day_of_month f) else None);
          ed = (if form_task_type f = One_time then Some (form_end_date f) else None)
      in if strip (form_title f) \<noteq> []
         then (add_task (form_title f) (form_desc f) (form_priority f) (form_task_type f)
                 (Some wd) mdate ed s, St_success ''Task added!'')
         else (s, St_error ''Title is required''))"

section \<open>Sending a message\<close>

text \<open>
  The world \<^verbatim>\<open>send_sms\<close> acts on: the process environment, the lines printed, and the
  number of requests made to the messaging service. The service itself is a parameter:
  \<open>new_client svc sid token\<close> is the outcome of the constructor
  \<^verbatim>\<open>Client(account_sid, auth_token)\<close>, and \<open>messages_create svc k client body from to\<close> is
  the outcome of the request \<^verbatim>\<open>client.messages.create\<close> when \<open>k\<close> requests were made
  before it. Either outcome is a value or the exception raised, an instance \<open>Exn msg\<close> of
  \<^verbatim>\<open>Exception\<close> whose \<^verbatim>\<open>str\<close> is \<open>msg\<close>.
\<close>

datatype exn = Exn string

record world =
  environ :: "string \<Rightarrow> string option"
  stdout :: "string list"
  api_calls :: nat

type_synonym client = "string \<times> string"

record service =
  new_client :: "string \<Rightarrow> string \<Rightarrow> exn + client"
  messages_create :: "nat \<Rightarrow> client \<Rightarrow> string \<Rightarrow> string \<Rightarrow> string \<Rightarrow> exn + string"

definition environ_get :: "world \<Rightarrow> string \<Rightarrow> string \<Rightarrow> string" where
  "environ_get w k dflt = (case environ w k of None \<Rightarrow> dflt | Some v \<Rightarrow> v)"

definition get_twilio_client :: "service \<Rightarrow> world \<Rightarrow> exn + client" where
  "get_twilio_client svc w =
     (case (environ w ''TWILIO_ACCOUNT_SID'', environ w ''TWILIO_AUTH_TOKEN'') of
        (Some account_sid, Some auth_token) \<Rightarrow>
          if account_sid = [] \<or> auth_token = [] then new_client svc ''ACC_SID'' ''AUTH_TOKEN''
          else new_client svc account_sid auth_token
      | _ \<Rightarrow> new_client svc ''ACC_SID'' ''AUTH_TOKEN'')"

definition valid_e164 :: "string \<Rightarrow> bool" where
  "valid_e164 to_number = (take 1 to_number = ''+'' \<and> isdigit (drop 1 to_number))"

definition invalid_phone_message :: string where
  "invalid_phone_message =
     ''Invalid phone number format. Must start with + followed by country code and number (no spaces or special characters).''"

text \<open>The body of the \<^verbatim>\<open>try\<close> block: \<open>Inl\<close> is an exception leaving it.\<close>

definition send_sms_try :: "service \<Rightarrow> string \<Rightarrow> world \<Rightarrow> world \<times> (exn + bool \<times> string)" where
  "send_sms_try svc body_text w =
     (case get_twilio_client svc w of
        Inl e \<Rightarrow> (w, Inl e)
      | Inr client \<Rightarrow>
          (let from_number = environ_get w ''TWILIO_PHONE_NUMBER'' ''+12345678'';
               to_number = environ_get w ''USER_PHONE_NUMBER'' ''+12345678''
           in if \<not> valid_e164 to_number then (w, Inr (False, invalid_phone_message))
              else (case messages_create svc (api_calls w) client body_text from_number to_number of
                      Inl e \<Rightarrow> (w\<lparr>api_calls := Suc (api_calls w)\<rparr>, Inl e)
                    | Inr sid \<Rightarrow> (w\<lparr>api_calls := Suc (api_calls w)\<rparr>, Inr (True, sid)))))"

text \<open>\<^verbatim>\<open>send_sms\<close>: the \<^verbatim>\<open>try\<close> block under its handler \<^verbatim>\<open>except Exception as e\<close>.
  \<open>Inl\<close> in the result would be an exception reaching the caller.\<close>

definition send_sms :: "service \<Rightarrow> string \<Rightarrow> world \<Rightarrow> world \<times> (exn + bool \<times> string)" where
  "send_sms svc body_text w =
     (case send_sms_try svc body_text w of
        (w', Inl (Exn msg)) \<Rightarrow>
          (w'\<lparr>stdout := stdout w' @ [''Error sending SMS: '' @ msg]\<rparr>, Inr (False, msg))
      | (w', Inr r) \<Rightarrow> (w', Inr r))"

section \<open>Notions of the goal claims\<close>

text \<open>The period window of a goal row, and the uniqueness of windows in the goals table.\<close>

definition goal_window :: "goal \<Rightarrow> goal_period \<times> date \<times> date" where
  "goal_window g = (period g, start_date g, goal_end_date g)"

definition goals_unique :: "db \<Rightarrow> bool" where
  "goals_unique s = distinct (map goal_window (goals s))"


section \<open>Notions of the calendar claims\<close>

text \<open>What lets \<open>place_task\<close> put a task into the cell of a date, and a property of
  every task in every cell of the dictionary.\<close>

definition placeable :: "task \<Rightarrow> date \<Rightarrow> bool" where
  "placeable t d =
     (case task_type t of
        One_time \<Rightarrow> end_date t = Some d
      | Daily \<Rightarrow> True
      | Weekly \<Rightarrow> (case week_days t of
                    None \<Rightarrow> False
                  | Some w \<Rightarrow> w \<noteq> [] \<and> strftime_A d \<in> set (split_comma w))
      | Monthly \<Rightarrow> (case monthly_date t of None \<Rightarrow> False | Some m \<Rightarrow> m \<noteq> 0 \<and> day d = m))"

definition cells_ok :: "(task \<Rightarrow> date \<Rightarrow> bool) \<Rightarrow> (date \<times> task list) list \<Rightarrow> bool" where
  "cells_ok P tbd = (\<forall>(d, c) \<in> set tbd. \<forall>x \<in> set c. P x d)"

section \<open>Example data\<close>

definition ex_day :: date where "ex_day = \<lparr>year = 2025, month = 4, day = 22\<rparr>"
definition ex_today :: date where "ex_today = \<lparr>year = 2025, month = 4, day = 24\<rparr>"

definition ex_task :: task where
  "ex_task = \<lparr>task_id = 1, title = ''Pay rent'', description = '''', status = Completed,
     priority = Medium, task_type = Monthly, week_days = Some '''', monthly_date = Some 1,
     end_date = None, last_completed = Some ex_day, completed_at = Some ex_day\<rparr>"

definition ex_daily :: task where
  "ex_daily = \<lparr>task_id = 2, title = ''Stretch'', description = '''', status = Pending,
     priority = Low, task_type = Daily, week_days = Some '''', monthly_date = None,
     end_date = None, last_completed = Some ex_today, completed_at = Some ex_today\<rparr>"

definition ex_db :: db where
  "ex_db = \<lparr>tasks = [ex_task], next_task_id = 2, goals = [], next_goal_id = 1\<rparr>"

definition ex_form :: add_form where
  "ex_form = \<lparr>form_title = [CHR '' '', CHR 0x09, CHR 0xA0], form_desc = ''x'',
     form_priority = High, form_task_type = One_time, form_days = [], form_day_of_month = 1,
     form_end_date = ex_today\<rparr>"

definition ex_monday :: date where "ex_monday = \<lparr>year = 2025, month = 4, day = 21\<rparr>"
definition ex_sunday :: date where "ex_sunday = \<lparr>year = 2025, month = 4, day = 27\<rparr>"


definition ex_goal :: goal where
  "ex_goal = \<lparr>goal_id = 1, period = Weekly_goal, target_count = 5, start_date = ex_monday,
               goal_end_date = ex_sunday\<rparr>"

definition ex_goal_db :: db where
  "ex_goal_db =
     \<lparr>tasks = [ex_task, ex_task\<lparr>completed_at := Some ex_monday\<rparr>,
               ex_task\<lparr>completed_at := Some ex_sunday\<rparr>,
               ex_task\<lparr>completed_at := Some \<lparr>year = 2025, month = 4, day = 28\<rparr>\<rparr>,
               ex_task\<lparr>completed_at := None\<rparr>, ex_daily],
      next_task_id = 3, goals = [ex_goal], next_goal_id = 2\<rparr>"



definition ex_world :: world where
  "ex_world = \<lparr>environ = (\<lambda>k. None), stdout = [], api_calls = 0\<rparr>"

definition ex_service_ok :: service where
  "ex_service_ok =
     \<lparr>new_client = (\<lambda>sid token. Inr (sid, token)),
      messages_create = (\<lambda>k client body from_number to_number. Inr ''SM01'')\<rparr>"

definition ex_service_down :: service where
  "ex_service_down =
     \<lparr>new_client = (\<lambda>sid token. Inr (sid, token)),
      messages_create = (\<lambda>k client body from_number to_number.
                           Inl (Exn ''Unable to create record''))\<rparr>"

definition ex_weekly :: task where
  "ex_weekly = \<lparr>task_id = 3, title = ''Gym'', description = '''', status = Pending,
     priority = High, task_type = Weekly, week_days = Some ''Monday,Wednesday'',
     monthly_date = None, end_date = None, last_completed = None, completed_at = None\<rparr>"

definition ex_month31 :: task where
  "ex_month31 = \<lparr>task_id = 4, title = ''Close books'', description = '''', status = Pending,
     priority = High, task_type = Monthly, week_days = Some '''', monthly_date = Some 31,
     end_date = Some \<lparr>year = 2025, month = 12, day = 31\<rparr>, last_completed = None,
     completed_at = None\<rparr>"

definition ex_april30 :: date where "ex_april30 = \<lparr>year = 2025, month = 4, day = 30\<rparr>"

definition ex_one_time :: task where
  "ex_one_time = \<lparr>task_id = 5, title = ''Tax return'', description = '''', status = Pending,
     priority = High, task_type = One_time, week_days = Some '''', monthly_date = None,
     end_date = Some ex_sunday, last_completed = None, completed_at = None\<rparr>"

definition ex_range :: "date list" where
  "ex_range = map (\<lambda>(m, d). \<lparr>year = 2025, month = m, day = d\<rparr>)
     [(4, 24), (4, 25), (4, 26), (4, 27), (4, 28), (4, 29), (4, 30), (5, 1), (5, 2), (5, 3),
      (5, 4), (5, 5), (5, 6), (5, 7), (5, 8)]"

definition ex_grid :: "(date \<times> task list) list" where
  "ex_grid = map (\<lambda>d. (d, if d = ex_sunday then [ex_one_time] else [])) ex_range"

section \<open>Auxiliary notions for the proofs\<close>

text \<open>The month and day that \<open>ord2ymd\<close> computes from the day number \<open>n\<close> within a year,
  and what makes them right.\<close>

definition md :: "bool \<Rightarrow> int \<Rightarrow> int \<times> int" where
  "md leapyear n =
     (let m = (n + 50) div 32;
          preceding = DAYS_BEFORE_MONTH m + (if m > 2 \<and> leapyear then 1 else 0)
      in if preceding > n
         then let m = m - 1;
                  preceding = preceding - (DAYS_IN_MONTH m + (if m = 2 \<and> leapyear then 1 else 0))
              in (m, n - preceding + 1)
         else (m, n - preceding + 1))"

definition md_good :: "bool \<Rightarrow> int \<Rightarrow> int \<times> int \<Rightarrow> bool" where
  "md_good L n p = (case p of (m, d) \<Rightarrow>
     1 \<le> m \<and> m \<le> 12 \<and> 1 \<le> d \<and> d \<le> DAYS_IN_MONTH m + (if m = 2 \<and> L then 1 else 0)
         \<and> DAYS_BEFORE_MONTH m + (if m > 2 \<and> L then 1 else 0) + d = n + 1)"

section \<open>Correctness of the date arithmetic\<close>

lemma DBM_simps:
  "DAYS_BEFORE_MONTH 1 = 0" "DAYS_BEFORE_MONTH 2 = 31" "DAYS_BEFORE_MONTH 3 = 59"
  "DAYS_BEFORE_MONTH 4 = 90" "DAYS_BEFORE_MONTH 5 = 120" "DAYS_BEFORE_MONTH 6 = 151"
  "DAYS_BEFORE_MONTH 7 = 181" "DAYS_BEFORE_MONTH 8 = 212" "DAYS_BEFORE_MONTH 9 = 243"
  "DAYS_BEFORE_MONTH 10 = 273" "DAYS_BEFORE_MONTH 11 = 304" "DAYS_BEFORE_MONTH 12 = 334"
  by (simp_all add: DAYS_BEFORE_MONTH_def)

lemma DIM_simps:
  "DAYS_IN_MONTH 1 = 31" "DAYS_IN_MONTH 2 = 28" "DAYS_IN_MONTH 3 = 31"
  "DAYS_IN_MONTH 4 = 30" "DAYS_IN_MONTH 5 = 31" "DAYS_IN_MONTH 6 = 30"
  "DAYS_IN_MONTH 7 = 31" "DAYS_IN_MONTH 8 = 31" "DAYS_IN_MONTH 9 = 30"
  "DAYS_IN_MONTH 10 = 31" "DAYS_IN_MONTH 11 = 30" "DAYS_IN_MONTH 12 = 31"
  by (simp_all add: DAYS_IN_MONTH_def)

lemma md_est:
  fixes n :: int
  assumes "0 \<le> n" "n < 365" "(n + 50) div 32 = k"
  shows "md_good L n (md L n)"
proof -
  have b: "32 * k \<le> n + 50" "n + 50 < 32 * k + 32" using assms(3) by presburger+
  have "1 \<le> k" "k \<le> 12" using b assms(1,2) by linarith+
  then have "k = 1 \<or> k = 2 \<or> k = 3 \<or> k = 4 \<or> k = 5 \<or> k = 6 \<or> k = 7
     \<or> k = 8 \<or> k = 9 \<or> k = 10 \<or> k = 11 \<or> k = 12" by arith
  then consider "k = 1" | "k = 2" | "k = 3" | "k = 4" | "k = 5" | "k = 6" | "k = 7"
     | "k = 8" | "k = 9" | "k = 10" | "k = 11" | "k = 12" by blast
  then show ?thesis
  proof cases
    case 1 then show ?thesis using b assms by (cases L) (simp_all add: md_def md_good_def Let_def DBM_simps DIM_simps)
  next
    case 2 then show ?thesis using b assms by (cases L) (simp_all add: md_def md_good_def Let_def DBM_simps DIM_simps)
  next
    case 3 then show ?thesis using b assms by (cases L) (simp_all add: md_def md_good_def Let_def DBM_simps DIM_simps)
  next
    case 4 then show ?thesis using b assms by (cases L) (simp_all add: md_def md_good_def Let_def DBM_simps DIM_simps)
  next
    case 5 then show ?thesis using b assms by (cases L) (simp_all add: md_def md_good_def Let_def DBM_simps DIM_simps)
  next
    case 6 then show ?thesis using b assms by (cases L) (simp_all add: md_def md_good_def Let_def DBM_simps DIM_simps)
  next
    case 7 then show ?thesis using b assms by (cases L) (simp_all add: md_def md_good_def Let_def DBM_simps DIM_simps)
  next
    case 8 then show ?thesis using b assms by (cases L) (simp_all add: md_def md_good_def Let_def DBM_simps DIM_simps)
  next
    case 9 then show ?thesis using b assms by (cases L) (simp_all add: md_def md_good_def Let_def DBM_simps DIM_simps)
  next
    case 10 then show ?thesis using b assms by (cases L) (simp_all add: md_def md_good_def Let_def DBM_simps DIM_simps)
  next
    case 11 then show ?thesis using b assms by (cases L) (simp_all add: md_def md_good_def Let_def DBM_simps DIM_simps)
  next
    case 12 then show ?thesis using b assms by (cases L) (simp_all add: md_def md_good_def Let_def DBM_simps DIM_simps)
  qed
qed


lemma dby_decomp:
  fixes a b c e :: int
  assumes "0 \<le> b" "b \<le> 3" "0 \<le> c" "c \<le> 24" "0 \<le> e" "e \<le> 3"
  shows "days_before_year (a * 400 + 1 + b * 100 + c * 4 + e)
           = 146097 * a + 36524 * b + 1461 * c + 365 * e"
proof -
  define v where "v = a * 400 + b * 100 + c * 4 + e"
  have d4: "v div 4 = 100 * a + 25 * b + c"
    by (rule int_div_pos_eq [where r = e]) (use assms in \<open>simp_all add: v_def\<close>)
  have d100: "v div 100 = 4 * a + b"
    by (rule int_div_pos_eq [where r = "c * 4 + e"]) (use assms in \<open>simp_all add: v_def\<close>)
  have d400: "v div 400 = a"
    by (rule int_div_pos_eq [where r = "b * 100 + c * 4 + e"]) (use assms in \<open>simp_all add: v_def\<close>)
  have "a * 400 + 1 + b * 100 + c * 4 + e - 1 = v" by (simp add: v_def)
  then show ?thesis
    by (simp add: days_before_year_def Let_def d4 d100 d400)
qed


lemma ord2ymd_unfold:
  "ord2ymd n0 =
     (let r1 = (n0 - 1) mod 146097; r2 = r1 mod 36524; r3 = r2 mod 1461;
          a = (n0 - 1) div 146097; b = r1 div 36524; c = r2 div 1461; e = r3 div 365;
          y = a * 400 + 1 + b * 100 + c * 4 + e
      in if e = 4 \<or> b = 4 then \<lparr>year = y - 1, month = 12, day = 31\<rparr>
         else case md (e = 3 \<and> (c \<noteq> 24 \<or> b = 3)) (r3 mod 365) of
                (m, d) \<Rightarrow> \<lparr>year = y, month = m, day = d\<rparr>)"
  unfolding ord2ymd_def md_def Let_def
  by (simp only: if_distrib [of "case_prod f" for f] prod.case cong: if_cong)


lemma leap_decomp:
  fixes a b c e :: int
  assumes "0 \<le> b" "b \<le> 3" "0 \<le> c" "c \<le> 24" "0 \<le> e" "e \<le> 3"
  shows "is_leap (a * 400 + 1 + b * 100 + c * 4 + e) = (e = 3 \<and> (c \<noteq> 24 \<or> b = 3))"
proof -
  define y where "y = a * 400 + 1 + b * 100 + c * 4 + e"
  have "y = (e + 1) + 4 * (100 * a + 25 * b + c)" by (simp add: y_def)
  then have m4: "y mod 4 = (e + 1) mod 4" by (simp only: mod_mult_self2)
  have "y = (c * 4 + e + 1) + 100 * (4 * a + b)" by (simp add: y_def)
  then have m100: "y mod 100 = (c * 4 + e + 1) mod 100" by (simp only: mod_mult_self2)
  have "y = (b * 100 + c * 4 + e + 1) + 400 * a" by (simp add: y_def)
  then have m400: "y mod 400 = (b * 100 + c * 4 + e + 1) mod 400" by (simp only: mod_mult_self2)
  have k4: "((e + 1) mod 4 = 0) = (e = 3)" using assms(5,6) by presburger
  have k100: "((c * 4 + e + 1) mod 100 = 0) = (c = 24 \<and> e = 3)"
  proof (cases "c * 4 + e + 1 < 100")
    case True
    then have "(c * 4 + e + 1) mod 100 = c * 4 + e + 1" using assms by simp
    then show ?thesis using True assms by auto
  next
    case False
    then have "c * 4 + e + 1 = 100" "c = 24" "e = 3" using assms by linarith+
    then show ?thesis by simp
  qed
  have k400: "((b * 100 + c * 4 + e + 1) mod 400 = 0) = (b = 3 \<and> c = 24 \<and> e = 3)"
  proof (cases "b * 100 + c * 4 + e + 1 < 400")
    case True
    then have "(b * 100 + c * 4 + e + 1) mod 400 = b * 100 + c * 4 + e + 1" using assms by simp
    then show ?thesis using True assms by auto
  next
    case False
    then have "b * 100 + c * 4 + e + 1 = 400" "b = 3" "c = 24" "e = 3" using assms by linarith+
    then show ?thesis by simp
  qed
  show ?thesis
    unfolding is_leap_def y_def [symmetric] m4 m100 m400 k4 k100 k400 by blast
qed


lemma year_bound:
  fixes a b c e :: int
  assumes "0 \<le> a" "0 \<le> b" "b \<le> 3" "0 \<le> c" "c \<le> 24" "0 \<le> e" "e \<le> 3"
    and "146097 * a + 36524 * b + 1461 * c + 365 * e \<le> 3652058"
  shows "a * 400 + 1 + b * 100 + c * 4 + e \<le> 9999"
proof (cases "a \<le> 23")
  case True then show ?thesis using assms by linarith
next
  case a: False
  show ?thesis
  proof (cases "b \<le> 2")
    case True then show ?thesis using a assms by linarith
  next
    case b: False
    show ?thesis
    proof (cases "c \<le> 23")
      case True then show ?thesis using a b assms by linarith
    next
      case False then show ?thesis using a b assms by linarith
    qed
  qed
qed

lemma ord2ymd_correct:
  assumes "1 \<le> n" "n \<le> MAXORDINAL"
  shows "valid_date (ord2ymd n) \<and> toordinal (ord2ymd n) = n"
proof -
  define r1 where "r1 = (n - 1) mod 146097"
  define a where "a = (n - 1) div 146097"
  define r2 where "r2 = r1 mod 36524"
  define b where "b = r1 div 36524"
  define r3 where "r3 = r2 mod 1461"
  define c where "c = r2 div 1461"
  define r4 where "r4 = r3 mod 365"
  define e where "e = r3 div 365"
  have e1: "n - 1 = 146097 * a + r1" and br1: "0 \<le> r1" "r1 < 146097"
    by (simp_all add: a_def r1_def)
  have e2: "r1 = 36524 * b + r2" and br2: "0 \<le> r2" "r2 < 36524"
    by (simp_all add: b_def r2_def)
  have e3: "r2 = 1461 * c + r3" and br3: "0 \<le> r3" "r3 < 1461"
    by (simp_all add: c_def r3_def)
  have e4: "r3 = 365 * e + r4" and br4: "0 \<le> r4" "r4 < 365"
    by (simp_all add: e_def r4_def)
  have n: "0 \<le> n - 1" "n - 1 \<le> 3652058" using assms by (simp_all add: MAXORDINAL_def)
  have ba: "0 \<le> a" "a \<le> 24" using e1 br1 n by linarith+
  have bb: "0 \<le> b" "b \<le> 4" using e2 br1 br2 by linarith+
  have bc: "0 \<le> c" "c \<le> 24" using e3 br2 br3 by linarith+
  have be: "0 \<le> e" "e \<le> 4" using e4 br3 br4 by linarith+
  have unf: "ord2ymd n =
      (if e = 4 \<or> b = 4 then \<lparr>year = a * 400 + 1 + b * 100 + c * 4 + e - 1, month = 12, day = 31\<rparr>
       else case md (e = 3 \<and> (c \<noteq> 24 \<or> b = 3)) r4 of
              (m, d) \<Rightarrow> \<lparr>year = a * 400 + 1 + b * 100 + c * 4 + e, month = m, day = d\<rparr>)"
    unfolding ord2ymd_unfold Let_def a_def b_def c_def e_def r1_def r2_def r3_def r4_def ..
  show ?thesis
  proof (cases "b = 4")
    case True
    then have z: "r2 = 0" "c = 0" "r3 = 0" "e = 0" "r4 = 0"
      using e2 e3 e4 br1 br2 br3 br4 bc be by linarith+
    have a23: "a \<le> 23" using True e1 e2 z n by linarith
    have yy: "a * 400 + 1 + b * 100 + c * 4 + e - 1 = a * 400 + 1 + 3 * 100 + 24 * 4 + 3"
      using True z by simp
    have dby: "days_before_year (a * 400 + 1 + 3 * 100 + 24 * 4 + 3) = 146097 * a + 36524 * 3 + 1461 * 24 + 365 * 3"
      by (rule dby_decomp) simp_all
    have lp: "is_leap (a * 400 + 1 + 3 * 100 + 24 * 4 + 3)"
      by (subst leap_decomp) simp_all
    have o: "ord2ymd n = \<lparr>year = a * 400 + 1 + 3 * 100 + 24 * 4 + 3, month = 12, day = 31\<rparr>"
      using True unf yy by simp
    have v: "valid_date (ord2ymd n)"
      unfolding o valid_date_def using ba a23 lp
      by (simp add: days_in_month_def DIM_simps MINYEAR_def MAXYEAR_def)
    have t: "toordinal (ord2ymd n) = n"
      unfolding o toordinal_def ymd2ord_def using lp dby e1 e2 True z
      by (simp add: days_before_month_def DBM_simps)
    from v t show ?thesis ..
  next
    case b4: False
    then have b3: "b \<le> 3" using bb by linarith
    show ?thesis
    proof (cases "e = 4")
      case True
      then have z: "r4 = 0" using e4 br3 br4 by linarith
      have c23: "c \<le> 23" using True e3 e4 z br2 by linarith
      have yy: "a * 400 + 1 + b * 100 + c * 4 + e - 1 = a * 400 + 1 + b * 100 + c * 4 + 3"
        using True by simp
      have dby: "days_before_year (a * 400 + 1 + b * 100 + c * 4 + 3) = 146097 * a + 36524 * b + 1461 * c + 365 * 3"
        by (rule dby_decomp) (use bb b3 bc in simp_all)
      have lp: "is_leap (a * 400 + 1 + b * 100 + c * 4 + 3)"
        by (subst leap_decomp) (use bb b3 bc c23 in simp_all)
      have o: "ord2ymd n = \<lparr>year = a * 400 + 1 + b * 100 + c * 4 + 3, month = 12, day = 31\<rparr>"
        using True unf yy by simp
      have yb: "1 \<le> a * 400 + 1 + b * 100 + c * 4 + 3" "a * 400 + 1 + b * 100 + c * 4 + 3 \<le> 9999"
        using ba bb b3 bc c23 by linarith+
      have v: "valid_date (ord2ymd n)"
        unfolding o valid_date_def using yb lp
        by (simp add: days_in_month_def DIM_simps MINYEAR_def MAXYEAR_def)
      have t: "toordinal (ord2ymd n) = n"
        unfolding o toordinal_def ymd2ord_def using lp dby e1 e2 e3 e4 True z
        by (simp add: days_before_month_def DBM_simps)
      from v t show ?thesis ..
    next
      case e4': False
      then have e3': "e \<le> 3" using be by linarith
      define L where "L = (e = 3 \<and> (c \<noteq> 24 \<or> b = 3))"
      define y where "y = a * 400 + 1 + b * 100 + c * 4 + e"
      obtain m d where md: "md L r4 = (m, d)" by (cases "md L r4")
      have good: "md_good L r4 (m, d)"
        using md_est [OF br4 refl, of L] md by simp
      have dby: "days_before_year y = 146097 * a + 36524 * b + 1461 * c + 365 * e"
        unfolding y_def by (rule dby_decomp) (use bb b3 bc be e3' in simp_all)
      have lp: "is_leap y = L"
        unfolding y_def L_def by (rule leap_decomp) (use bb b3 bc be e3' in simp_all)
      have o: "ord2ymd n = \<lparr>year = y, month = m, day = d\<rparr>"
        using b4 e4' unf md by (simp add: L_def y_def)
      have "146097 * a + 36524 * b + 1461 * c + 365 * e \<le> 3652058"
        using e1 e2 e3 e4 br4 n by linarith
      then have "y \<le> 9999" unfolding y_def using ba bb b3 bc be e3' by (intro year_bound) simp_all
      moreover have "1 \<le> y" unfolding y_def using ba bb bc be by linarith
      ultimately have v: "valid_date (ord2ymd n)"
        unfolding o valid_date_def using good lp
        by (auto simp add: md_good_def days_in_month_def MINYEAR_def MAXYEAR_def DIM_simps
                 split: if_splits)
      have t: "toordinal (ord2ymd n) = n"
        unfolding o toordinal_def ymd2ord_def using good lp dby e1 e2 e3 e4
        by (simp add: md_good_def days_before_month_def)
      from v t show ?thesis ..
    qed
  qed
qed

section \<open>Status toggle\<close>

lemma update_task_status_None_dates:
  "map last_completed (tasks (update_task_status tid st None s)) = map last_completed (tasks s)
   \<and> map completed_at (tasks (update_task_status tid st None s)) = map completed_at (tasks s)"
  by (simp add: update_task_status_def comp_def if_distrib cong: if_cong)

lemma reset_keeps_last_completed:
  "map last_completed (tasks (reset_task t s)) = map last_completed (tasks s)"
  by (simp add: reset_task_def update_task_status_None_dates)

text \<open>
  Claim C1 says that toggling a Completed task back to Pending clears its last-completed and
  completed-at dates. The code does not: the task \<open>ex_task\<close>, completed on 2025-04-22 and
  toggled on 2025-04-24, becomes Pending and keeps both dates, since without a completion
  date \<open>update_task_status\<close> writes the status column only.
\<close>

theorem toggle_to_pending_keeps_dates:
  "tasks (toggle_status ex_today ex_task ex_db) = [ex_task\<lparr>status := Pending\<rparr>]
   \<and> last_completed (ex_task\<lparr>status := Pending\<rparr>) = Some ex_day
   \<and> completed_at (ex_task\<lparr>status := Pending\<rparr>) = Some ex_day"
  by (simp add: toggle_status_def update_task_status_def ex_db_def ex_task_def)

section \<open>Overdue tasks\<close>

lemma overdue_step_amended:
  "overdue_step today n t = n + (if overdue_amended today t then 1 else 0)"
  by (simp add: overdue_step_def overdue_amended_def split: option.splits)

lemma foldl_overdue:
  "foldl (overdue_step today) n ts = n + length (filter (overdue_amended today) ts)"
  by (induction ts arbitrary: n) (simp_all add: overdue_step_amended)

text \<open>
  Claim C2, as amended: the overdue metric of the dashboard is the number of Pending tasks
  that are One-time with a due date strictly before today, or recurring with no
  last-completed date or a last-completed date strictly before today. Tasks that are not
  Pending are never counted.
\<close>

theorem overdue_metric_amended:
  "overdue_metric (task_stats today ts) = length (filter (overdue_amended today) ts)"
  by (simp add: task_stats_def foldl_overdue)

theorem overdue_metric_amended_witness:
  "overdue_metric (task_stats ex_today
     [ex_daily, ex_daily\<lparr>last_completed := Some ex_day\<rparr>, ex_daily\<lparr>last_completed := None\<rparr>,
      ex_task]) = 2"
  using overdue_metric_amended [of ex_today
     "[ex_daily, ex_daily\<lparr>last_completed := Some ex_day\<rparr>, ex_daily\<lparr>last_completed := None\<rparr>,
       ex_task]"]
  by (simp add: overdue_amended_def ex_daily_def ex_task_def ex_day_def ex_today_def date_lt_def)

text \<open>
  Claim C2 as stated fails: on 2025-04-22 the Pending Daily task \<open>ex_daily\<close>, whose
  last-completed date 2025-04-24 is not that day, is overdue in the words of the claim, and
  the dashboard does not count it.
\<close>

theorem overdue_spec_counterexample:
  "overdue_spec ex_day ex_daily
   \<and> overdue_metric (task_stats ex_day [ex_daily]) = 0
   \<and> overdue_metric (task_stats ex_day [ex_daily]) \<noteq> length (filter (overdue_spec ex_day) [ex_daily])"
  by (simp add: overdue_spec_def task_stats_def overdue_step_def ex_daily_def ex_day_def
        ex_today_def date_lt_def)

text \<open>When no last-completed date lies after today, the two readings of "overdue" agree.\<close>

lemma date_trichotomy: "date_lt a b \<or> a = b \<or> date_lt b a"
  by (cases a; cases b) (auto simp: date_lt_def)

lemma date_lt_irrefl: "\<not> date_lt a a"
  by (simp add: date_lt_def)

lemma overdue_spec_eq_amended:
  assumes "\<And>d. last_completed t = Some d \<Longrightarrow> \<not> date_lt today d"
  shows "overdue_spec today t = overdue_amended today t"
proof (cases "last_completed t")
  case None
  then show ?thesis by (simp add: overdue_spec_def overdue_amended_def)
next
  case (Some d)
  with assms have "\<not> date_lt today d" by simp
  then have "d \<noteq> today \<longleftrightarrow> date_lt d today"
    using date_trichotomy [of d today] date_lt_irrefl [of today] by auto
  then show ?thesis using Some by (simp add: overdue_spec_def overdue_amended_def)
qed

section \<open>Title validation\<close>

lemma all_dropWhile_iff: "(\<forall>x \<in> set (dropWhile P xs). P x) \<longleftrightarrow> (\<forall>x \<in> set xs. P x)"
proof
  assume a: "\<forall>x \<in> set (dropWhile P xs). P x"
  have "dropWhile P xs = []"
  proof (rule ccontr)
    assume n: "dropWhile P xs \<noteq> []"
    then have "\<not> P (hd (dropWhile P xs))" by (rule hd_dropWhile)
    moreover have "hd (dropWhile P xs) \<in> set (dropWhile P xs)" using n by simp
    ultimately show False using a by blast
  qed
  then show "\<forall>x \<in> set xs. P x" by (simp add: dropWhile_eq_Nil_conv)
next
  assume "\<forall>x \<in> set xs. P x"
  then show "\<forall>x \<in> set (dropWhile P xs). P x" by (meson set_dropWhileD)
qed

lemma strip_empty_iff: "strip s = [] \<longleftrightarrow> (\<forall>c \<in> set s. isspace c)"
  by (simp add: strip_def dropWhile_eq_Nil_conv all_dropWhile_iff)

text \<open>
  Claim C8: when the title of the add-task form is empty or consists only of whitespace,
  the button "Add Task" reports the error "Title is required" and leaves the database as it
  was; \<open>add_task\<close> is not called.
\<close>

theorem empty_title_rejected:
  assumes "\<forall>c \<in> set (form_title f). isspace c"
  shows "add_task_clicked f s = (s, St_error ''Title is required'')"
  using assms by (simp add: add_task_clicked_def strip_empty_iff Let_def)

theorem empty_title_rejected_witness:
  "list_all isspace (form_title ex_form)
   \<and> add_task_clicked ex_form ex_db = (ex_db, St_error ''Title is required'')"
proof -
  have h: "\<forall>c \<in> set (form_title ex_form). isspace c"
    by (simp add: ex_form_def isspace_def)
  from h empty_title_rejected [OF h, of ex_db] show ?thesis by (simp add: list_all_iff)
qed

section \<open>Range of ordinals and date arithmetic\<close>


lemma month_cases:
  fixes m :: int
  assumes "1 \<le> m" "m \<le> 12"
  obtains "m = 1" | "m = 2" | "m = 3" | "m = 4" | "m = 5" | "m = 6" | "m = 7" | "m = 8"
    | "m = 9" | "m = 10" | "m = 11" | "m = 12"
proof -
  have "m = 1 \<or> m = 2 \<or> m = 3 \<or> m = 4 \<or> m = 5 \<or> m = 6 \<or> m = 7 \<or> m = 8
        \<or> m = 9 \<or> m = 10 \<or> m = 11 \<or> m = 12" using assms by arith
  then show thesis using that by blast
qed

lemma month_span:
  assumes "1 \<le> m" "m \<le> 12"
  shows "0 \<le> days_before_month y m
         \<and> days_before_month y m + days_in_month y m \<le> (if is_leap y then 366 else 365)"
  using assms
  by (cases m rule: month_cases)
     (simp_all add: days_before_month_def days_in_month_def DBM_simps DIM_simps)

lemma days_before_year_nonneg:
  assumes "1 \<le> y"
  shows "0 \<le> days_before_year y"
proof -
  define v where "v = y - 1"
  have v: "0 \<le> v" using assms by (simp add: v_def)
  have "v div 100 \<le> v div 4" using v by (intro zdiv_mono2) simp_all
  moreover have "0 \<le> v div 400" using v by simp
  moreover have "0 \<le> v * 365" using v by simp
  ultimately show ?thesis unfolding days_before_year_def Let_def v_def [symmetric] by linarith
qed

lemma days_before_year_upper:
  assumes "1 \<le> y" "y \<le> 9998"
  shows "days_before_year y + 366 \<le> MAXORDINAL"
proof -
  define v where "v = y - 1"
  have v: "0 \<le> v" "v \<le> 9997" using assms by (simp_all add: v_def)
  have f1: "4 * (v div 4) \<le> v" by simp
  have f2: "v < 100 * (v div 100) + 100"
    using pos_mod_bound [of 100 v] mult_div_mod_eq [of 100 v] by linarith
  have f3: "400 * (v div 400) \<le> v" by simp
  show ?thesis unfolding days_before_year_def Let_def v_def [symmetric] MAXORDINAL_def
    using v f1 f2 f3 by linarith
qed

lemma toordinal_bounds:
  assumes "valid_date d"
  shows "1 \<le> toordinal d \<and> toordinal d \<le> MAXORDINAL"
proof -
  from assms have y: "1 \<le> year d" "year d \<le> 9999" and m: "1 \<le> month d" "month d \<le> 12"
    and dd: "1 \<le> day d" "day d \<le> days_in_month (year d) (month d)"
    by (simp_all add: valid_date_def MINYEAR_def MAXYEAR_def)
  note ms = month_span [OF m, of "year d"]
  have lo: "1 \<le> toordinal d"
    unfolding toordinal_def ymd2ord_def using days_before_year_nonneg [OF y(1)] ms dd by linarith
  have hi: "toordinal d \<le> MAXORDINAL"
  proof (cases "year d \<le> 9998")
    case True
    from days_before_year_upper [OF y(1) True] ms dd show ?thesis
      unfolding toordinal_def ymd2ord_def by (simp split: if_splits)
  next
    case False
    then have e: "year d = 9999" using y by linarith
    have "days_before_year 9999 = 3651694" by (simp add: days_before_year_def)
    moreover have "\<not> is_leap 9999" by (simp add: is_leap_def)
    ultimately show ?thesis using ms dd unfolding toordinal_def ymd2ord_def e MAXORDINAL_def
      by simp
  qed
  from lo hi show ?thesis ..
qed

lemma weekday_range: "0 \<le> weekday d \<and> weekday d < 7"
  by (simp add: weekday_def)

lemma date_add_days_ok:
  assumes "1 \<le> toordinal d + k" "toordinal d + k \<le> MAXORDINAL"
  shows "\<exists>d'. date_add_days d k = Inr d' \<and> valid_date d' \<and> toordinal d' = toordinal d + k"
  using assms ord2ymd_correct [OF assms] by (simp add: date_add_days_def Let_def)

lemma weekday_le_ordinal:
  assumes "1 \<le> toordinal d"
  shows "weekday d \<le> toordinal d - 1"
proof -
  have "weekday d = (toordinal d - 1) mod 7" unfolding weekday_def by presburger
  also have "\<dots> \<le> toordinal d - 1" using assms by (intro zmod_le_nonneg_dividend) simp
  finally show ?thesis .
qed


section \<open>Weekly goal window\<close>

text \<open>
  Claim C6: for a reference date whose week ends within the calendar (every date up to
  9999-12-26), the Weekly window of \<open>save_goal\<close> and \<open>get_current_goal\<close> starts on a
  Monday on or before the date, ends on the Sunday six days later, on or after the date; for
  a Thursday it runs from three days before to three days after.
\<close>

theorem weekly_window:
  assumes "valid_date today" and "toordinal today - weekday today + 6 \<le> MAXORDINAL"
  shows "\<exists>s e. period_window Weekly_goal today = Inr (s, e)
           \<and> valid_date s \<and> valid_date e
           \<and> weekday s = 0 \<and> weekday e = 6
           \<and> toordinal s = toordinal today - weekday today
           \<and> toordinal e = toordinal s + 6
           \<and> toordinal s \<le> toordinal today \<and> toordinal today \<le> toordinal e
           \<and> (weekday today = 3 \<longrightarrow>
                toordinal s = toordinal today - 3 \<and> toordinal e = toordinal today + 3)"
proof -
  note b = toordinal_bounds [OF assms(1)]
  note w = weekday_range [of today]
  have wl: "weekday today \<le> toordinal today - 1" using weekday_le_ordinal b by simp
  have "1 \<le> toordinal today + - weekday today" using wl by linarith
  moreover have "toordinal today + - weekday today \<le> MAXORDINAL" using assms(2) by linarith
  ultimately obtain s where s: "date_add_days today (- weekday today) = Inr s" "valid_date s"
    "toordinal s = toordinal today + - weekday today"
    using date_add_days_ok by blast
  have "1 \<le> toordinal s + 6" "toordinal s + 6 \<le> MAXORDINAL" using s(3) wl assms(2) by linarith+
  then obtain e where e: "date_add_days s 6 = Inr e" "valid_date e" "toordinal e = toordinal s + 6"
    using date_add_days_ok by blast
  have ws: "weekday s = 0" unfolding weekday_def s(3) weekday_def by presburger
  have we: "weekday e = 6" using ws unfolding weekday_def e(3) by presburger
  have pw: "period_window Weekly_goal today = Inr (s, e)"
    by (simp add: period_window_def s(1) e(1))
  show ?thesis using pw s e ws we w by (intro exI [of _ s] exI [of _ e]) auto
qed

lemma ex_today_ordinal: "toordinal ex_today = 739365"
  by (simp add: toordinal_def ymd2ord_def days_before_year_def days_before_month_def
        DAYS_BEFORE_MONTH_def is_leap_def ex_today_def)

lemma ex_today_weekday: "weekday ex_today = 3"
  by (simp add: weekday_def ex_today_ordinal)

lemma ex_monday_ordinal: "toordinal ex_monday = 739362"
  by (simp add: toordinal_def ymd2ord_def days_before_year_def days_before_month_def
        DAYS_BEFORE_MONTH_def is_leap_def ex_monday_def)

lemma ord2ymd_ex_monday: "ord2ymd 739362 = ex_monday"
  by (simp add: ord2ymd_def Let_def DAYS_BEFORE_MONTH_def DAYS_IN_MONTH_def ex_monday_def)

lemma ord2ymd_ex_sunday: "ord2ymd 739368 = ex_sunday"
  by (simp add: ord2ymd_def Let_def DAYS_BEFORE_MONTH_def DAYS_IN_MONTH_def ex_sunday_def)

lemma period_window_ex: "period_window Weekly_goal ex_today = Inr (ex_monday, ex_sunday)"
  by (simp add: period_window_def date_add_days_def ex_today_ordinal ex_today_weekday
        ex_monday_ordinal ord2ymd_ex_monday ord2ymd_ex_sunday MAXORDINAL_def)

lemma ex_today_valid: "valid_date ex_today"
  by (simp add: valid_date_def ex_today_def MINYEAR_def MAXYEAR_def days_in_month_def
        DAYS_IN_MONTH_def)

theorem weekly_window_witness:
  "valid_date ex_today \<and> toordinal ex_today - weekday ex_today + 6 \<le> MAXORDINAL
   \<and> weekday ex_today = 3
   \<and> period_window Weekly_goal ex_today = Inr (ex_monday, ex_sunday)
   \<and> weekday ex_monday = 0 \<and> weekday ex_sunday = 6
   \<and> toordinal ex_monday = toordinal ex_today - 3 \<and> toordinal ex_sunday = toordinal ex_today + 3"
proof -
  have h1: "valid_date ex_today" by (rule ex_today_valid)
  have h2: "toordinal ex_today - weekday ex_today + 6 \<le> MAXORDINAL"
    by (simp add: ex_today_ordinal ex_today_weekday MAXORDINAL_def)
  from weekly_window [OF h1 h2] obtain s e where
    r: "period_window Weekly_goal ex_today = Inr (s, e)" "weekday s = 0" "weekday e = 6"
       "weekday ex_today = 3 \<longrightarrow> toordinal s = toordinal ex_today - 3 \<and> toordinal e = toordinal ex_today + 3"
    by blast
  from r(1) have se: "s = ex_monday" "e = ex_sunday" by (simp_all add: period_window_ex)
  show ?thesis using h1 h2 r(2-4) ex_today_weekday period_window_ex unfolding se by simp
qed

text \<open>The hypothesis on the end of the week holds up to 9999-12-26; in the last days of
  the calendar the computation of the window raises.\<close>

lemma weekly_window_defined:
  assumes "toordinal today \<le> 3652054"
  shows "toordinal today - weekday today + 6 \<le> MAXORDINAL"
  using assms unfolding weekday_def MAXORDINAL_def by presburger

lemma weekly_window_last_week:
  "period_window Weekly_goal \<lparr>year = 9999, month = 12, day = 27\<rparr> = Inl OverflowError"
  by (simp add: period_window_def date_add_days_def toordinal_def ymd2ord_def
        days_before_year_def days_before_month_def DAYS_BEFORE_MONTH_def is_leap_def weekday_def
        MAXORDINAL_def ord2ymd_def Let_def DAYS_IN_MONTH_def)

section \<open>Saving a goal\<close>


lemma in_window_iff: "in_window p sd ed g \<longleftrightarrow> goal_window g = (p, sd, ed)"
  by (auto simp: in_window_def goal_window_def)

lemma goal_window_update [simp]: "goal_window (g\<lparr>target_count := n\<rparr>) = goal_window g"
  by (simp add: goal_window_def)

lemma map_goal_window_update:
  "map goal_window (map (\<lambda>g. if P g then g\<lparr>target_count := n\<rparr> else g) gs) = map goal_window gs"
  by (induction gs) simp_all

text \<open>
  Claim C7: \<open>save_goal\<close> keeps the windows of the goals table distinct. When a row for the
  current window exists, no row is added, the windows and ids stay as they are and that row
  gets the new target; otherwise one row with the window and the target is appended.
\<close>

theorem save_goal_upsert:
  assumes "goals_unique s" and "period_window p today = Inr (sd, ed)"
  shows "\<exists>s'. save_goal today p target s = Inr s' \<and> goals_unique s' \<and> tasks s' = tasks s
           \<and> (if (p, sd, ed) \<in> set (map goal_window (goals s))
               then map goal_window (goals s') = map goal_window (goals s)
                    \<and> map goal_id (goals s') = map goal_id (goals s)
                    \<and> (\<forall>g \<in> set (goals s'). goal_window g = (p, sd, ed) \<longrightarrow> target_count g = target)
               else goals s' = goals s @
                      [\<lparr>goal_id = next_goal_id s, period = p, target_count = target,
                        start_date = sd, goal_end_date = ed\<rparr>])"
proof (cases "find (in_window p sd ed) (goals s)")
  case None
  then have no: "(p, sd, ed) \<notin> set (map goal_window (goals s))"
    by (auto simp: find_None_iff in_window_iff)
  define s' where "s' = s\<lparr>goals := goals s @
                      [\<lparr>goal_id = next_goal_id s, period = p, target_count = target,
                        start_date = sd, goal_end_date = ed\<rparr>],
                    next_goal_id := Suc (next_goal_id s)\<rparr>"
  have sv: "save_goal today p target s = Inr s'"
    by (simp add: save_goal_def assms(2) None s'_def)
  have "goals_unique s'" using assms(1) no
    by (simp add: goals_unique_def s'_def goal_window_def)
  moreover have "tasks s' = tasks s" by (simp add: s'_def)
  moreover have "goals s' = goals s @
                      [\<lparr>goal_id = next_goal_id s, period = p, target_count = target,
                        start_date = sd, goal_end_date = ed\<rparr>]" by (simp add: s'_def)
  ultimately show ?thesis using sv no by (intro exI [of _ s']) (simp only: if_False simp_thms)
next
  case (Some existing)
  then have ex: "existing \<in> set (goals s)" "goal_window existing = (p, sd, ed)"
    by (auto simp: find_Some_iff in_window_iff)
  then have yes: "(p, sd, ed) \<in> set (map goal_window (goals s))" by force
  define s' where "s' = s\<lparr>goals := map (\<lambda>g. if goal_id g = goal_id existing
                                          then g\<lparr>target_count := target\<rparr> else g) (goals s)\<rparr>"
  have sv: "save_goal today p target s = Inr s'"
    by (simp add: save_goal_def assms(2) Some s'_def)
  have mw: "map goal_window (goals s') = map goal_window (goals s)"
    by (simp add: s'_def map_goal_window_update)
  have mi: "map goal_id (goals s') = map goal_id (goals s)"
    by (simp add: s'_def comp_def if_distrib cong: if_cong)
  have un: "goals_unique s'" using assms(1) by (simp add: goals_unique_def mw)
  have tg: "target_count g = target" if g: "g \<in> set (goals s')" "goal_window g = (p, sd, ed)" for g
  proof -
    from g(1) obtain g0 where g0: "g0 \<in> set (goals s)"
      "g = (if goal_id g0 = goal_id existing then g0\<lparr>target_count := target\<rparr> else g0)"
      by (auto simp: s'_def)
    then have "goal_window g0 = (p, sd, ed)" using g(2) by (simp split: if_splits)
    then have "g0 = existing"
      using assms(1) g0(1) ex by (auto simp: goals_unique_def distinct_map inj_on_def)
    then show ?thesis using g0(2) by simp
  qed
  have ts: "tasks s' = tasks s" by (simp add: s'_def)
  have "\<forall>g \<in> set (goals s'). goal_window g = (p, sd, ed) \<longrightarrow> target_count g = target"
    using tg by blast
  then show ?thesis using sv un mw mi ts yes by (intro exI [of _ s']) (simp only: if_True simp_thms)
qed

lemma ex_goal_db_unique: "goals_unique ex_goal_db"
  by (simp add: goals_unique_def ex_goal_db_def)

theorem save_goal_upsert_witness:
  "goals_unique ex_goal_db
   \<and> period_window Weekly_goal ex_today = Inr (ex_monday, ex_sunday)
   \<and> save_goal ex_today Weekly_goal 8 ex_goal_db
       = Inr (ex_goal_db\<lparr>goals := [ex_goal\<lparr>target_count := 8\<rparr>]\<rparr>)
   \<and> goals_unique (ex_goal_db\<lparr>goals := [ex_goal\<lparr>target_count := 8\<rparr>]\<rparr>)"
proof -
  from save_goal_upsert [OF ex_goal_db_unique period_window_ex, of 8] obtain s' where
    r: "save_goal ex_today Weekly_goal 8 ex_goal_db = Inr s'" "goals_unique s'" by blast
  have v: "save_goal ex_today Weekly_goal 8 ex_goal_db
             = Inr (ex_goal_db\<lparr>goals := [ex_goal\<lparr>target_count := 8\<rparr>]\<rparr>)"
    by (simp add: save_goal_def period_window_ex in_window_def ex_goal_db_def ex_goal_def)
  from r(1) v have "s' = ex_goal_db\<lparr>goals := [ex_goal\<lparr>target_count := 8\<rparr>]\<rparr>" by simp
  with r(2) v ex_goal_db_unique period_window_ex show ?thesis by simp
qed

text \<open>The empty table has distinct windows, and the task operations leave the goals alone.\<close>

lemma goals_unique_empty: "goals s = [] \<Longrightarrow> goals_unique s"
  by (simp add: goals_unique_def)

lemma goals_add_task [simp]: "goals (add_task ttl desc pr ty wd mdate ed s) = goals s"
  by (simp add: add_task_def)

lemma goals_update_task_status [simp]: "goals (update_task_status tid st lc s) = goals s"
  by (simp add: update_task_status_def split: option.splits)

section \<open>Goal progress\<close>



text \<open>The two bounds are exactly where a progress is shown: for a stored target outside
  them the target input raises, and no progress is computed.\<close>

lemma goal_progress_above_max:
  assumes "get_current_goal today p s = Inr (Some g)" and "100 < target_count g"
  shows "goal_progress today p s = Inl StreamlitValueAboveMaxError"
  using assms by (simp add: goal_progress_def)

lemma goal_progress_below_min:
  assumes "get_current_goal today p s = Inr (Some g)" and "target_count g < 1"
  shows "goal_progress today p s = Inl StreamlitValueBelowMinError"
  using assms by (simp add: goal_progress_def)






section \<open>Sending never raises\<close>

lemma send_sms_try_calls:
  "api_calls (fst (send_sms_try svc body w)) \<le> Suc (api_calls w)"
  by (simp add: send_sms_try_def Let_def split: sum.splits)

lemma send_sms_calls:
  "api_calls (fst (send_sms svc body w)) = api_calls (fst (send_sms_try svc body w))"
  by (cases "send_sms_try svc body w") (auto simp: send_sms_def split: sum.splits exn.splits)

text \<open>
  Claim C9: \<open>send_sms\<close> never lets an exception reach its caller. It makes at most one
  request to the messaging service. When the request succeeds it returns \<open>(True, sid)\<close>;
  when the request or the construction of the client raises, the handler prints one line
  with the error and returns \<open>(False, reason)\<close>, without a second request.
\<close>

theorem send_sms_never_raises:
  "(\<exists>r. snd (send_sms svc body w) = Inr r)
   \<and> api_calls (fst (send_sms svc body w)) \<le> Suc (api_calls w)
   \<and> (\<forall>client sid. get_twilio_client svc w = Inr client
          \<and> valid_e164 (environ_get w ''USER_PHONE_NUMBER'' ''+12345678'')
          \<and> messages_create svc (api_calls w) client body
               (environ_get w ''TWILIO_PHONE_NUMBER'' ''+12345678'')
               (environ_get w ''USER_PHONE_NUMBER'' ''+12345678'') = Inr sid
        \<longrightarrow> send_sms svc body w = (w\<lparr>api_calls := Suc (api_calls w)\<rparr>, Inr (True, sid)))
   \<and> (\<forall>client msg. get_twilio_client svc w = Inr client
          \<and> valid_e164 (environ_get w ''USER_PHONE_NUMBER'' ''+12345678'')
          \<and> messages_create svc (api_calls w) client body
               (environ_get w ''TWILIO_PHONE_NUMBER'' ''+12345678'')
               (environ_get w ''USER_PHONE_NUMBER'' ''+12345678'') = Inl (Exn msg)
        \<longrightarrow> send_sms svc body w
              = (w\<lparr>api_calls := Suc (api_calls w),
                    stdout := stdout w @ [''Error sending SMS: '' @ msg]\<rparr>, Inr (False, msg)))
   \<and> (\<forall>msg. get_twilio_client svc w = Inl (Exn msg)
        \<longrightarrow> send_sms svc body w
              = (w\<lparr>stdout := stdout w @ [''Error sending SMS: '' @ msg]\<rparr>, Inr (False, msg)))"
proof (intro conjI allI impI)
  show "\<exists>r. snd (send_sms svc body w) = Inr r"
    by (cases "send_sms_try svc body w")
       (auto simp: send_sms_def split: sum.splits exn.splits)
next
  show "api_calls (fst (send_sms svc body w)) \<le> Suc (api_calls w)"
    using send_sms_try_calls [of svc body w] by (simp add: send_sms_calls)
next
  fix client sid
  assume "get_twilio_client svc w = Inr client
          \<and> valid_e164 (environ_get w ''USER_PHONE_NUMBER'' ''+12345678'')
          \<and> messages_create svc (api_calls w) client body
               (environ_get w ''TWILIO_PHONE_NUMBER'' ''+12345678'')
               (environ_get w ''USER_PHONE_NUMBER'' ''+12345678'') = Inr sid"
  then show "send_sms svc body w = (w\<lparr>api_calls := Suc (api_calls w)\<rparr>, Inr (True, sid))"
    by (simp add: send_sms_def send_sms_try_def Let_def)
next
  fix client msg
  assume "get_twilio_client svc w = Inr client
          \<and> valid_e164 (environ_get w ''USER_PHONE_NUMBER'' ''+12345678'')
          \<and> messages_create svc (api_calls w) client body
               (environ_get w ''TWILIO_PHONE_NUMBER'' ''+12345678'')
               (environ_get w ''USER_PHONE_NUMBER'' ''+12345678'') = Inl (Exn msg)"
  then show "send_sms svc body w
              = (w\<lparr>api_calls := Suc (api_calls w),
                    stdout := stdout w @ [''Error sending SMS: '' @ msg]\<rparr>, Inr (False, msg))"
    by (simp add: send_sms_def send_sms_try_def Let_def)
next
  fix msg
  assume "get_twilio_client svc w = Inl (Exn msg)"
  then show "send_sms svc body w
              = (w\<lparr>stdout := stdout w @ [''Error sending SMS: '' @ msg]\<rparr>, Inr (False, msg))"
    by (simp add: send_sms_def send_sms_try_def)
qed

lemma send_sms_invalid_number:
  assumes "get_twilio_client svc w = Inr client"
    and "\<not> valid_e164 (environ_get w ''USER_PHONE_NUMBER'' ''+12345678'')"
  shows "send_sms svc body w = (w, Inr (False, invalid_phone_message))"
  using assms by (simp add: send_sms_def send_sms_try_def Let_def)

lemma ex_world_number: "valid_e164 (environ_get ex_world ''USER_PHONE_NUMBER'' ''+12345678'')"
  by (simp add: valid_e164_def environ_get_def ex_world_def isdigit_def isdigit_char_def)

lemma ex_world_client:
  "get_twilio_client ex_service_ok ex_world = Inr (''ACC_SID'', ''AUTH_TOKEN'')"
  "get_twilio_client ex_service_down ex_world = Inr (''ACC_SID'', ''AUTH_TOKEN'')"
  by (simp_all add: get_twilio_client_def ex_world_def ex_service_ok_def ex_service_down_def)

theorem send_sms_never_raises_witness:
  "valid_e164 (environ_get ex_world ''USER_PHONE_NUMBER'' ''+12345678'')
   \<and> send_sms ex_service_ok ''hello'' ex_world = (ex_world\<lparr>api_calls := 1\<rparr>, Inr (True, ''SM01''))
   \<and> send_sms ex_service_down ''hello'' ex_world
       = (ex_world\<lparr>api_calls := 1,
            stdout := [''Error sending SMS: Unable to create record'']\<rparr>,
          Inr (False, ''Unable to create record''))"
proof -
  note v = ex_world_number
  have ok: "messages_create ex_service_ok (api_calls ex_world) (''ACC_SID'', ''AUTH_TOKEN'') ''hello''
               (environ_get ex_world ''TWILIO_PHONE_NUMBER'' ''+12345678'')
               (environ_get ex_world ''USER_PHONE_NUMBER'' ''+12345678'') = Inr ''SM01''"
    by (simp add: ex_service_ok_def)
  have down: "messages_create ex_service_down (api_calls ex_world) (''ACC_SID'', ''AUTH_TOKEN'') ''hello''
               (environ_get ex_world ''TWILIO_PHONE_NUMBER'' ''+12345678'')
               (environ_get ex_world ''USER_PHONE_NUMBER'' ''+12345678'')
              = Inl (Exn ''Unable to create record'')"
    by (simp add: ex_service_down_def)
  from send_sms_never_raises [of ex_service_ok "''hello''" ex_world] v ok ex_world_client(1)
  have a: "send_sms ex_service_ok ''hello'' ex_world
             = (ex_world\<lparr>api_calls := Suc (api_calls ex_world)\<rparr>, Inr (True, ''SM01''))"
    by blast
  from send_sms_never_raises [of ex_service_down "''hello''" ex_world] v down ex_world_client(2)
  have b: "send_sms ex_service_down ''hello'' ex_world
             = (ex_world\<lparr>api_calls := Suc (api_calls ex_world),
                   stdout := stdout ex_world @ [''Error sending SMS: '' @ ''Unable to create record'']\<rparr>,
                Inr (False, ''Unable to create record''))"
    by blast
  show ?thesis using v a b by (simp add: ex_world_def)
qed

section \<open>Tasks active today\<close>

lemma weekday_cases:
  obtains "weekday d = 0" | "weekday d = 1" | "weekday d = 2" | "weekday d = 3"
    | "weekday d = 4" | "weekday d = 5" | "weekday d = 6"
proof -
  have "0 \<le> weekday d" "weekday d < 7" using weekday_range by simp_all
  then have "weekday d = 0 \<or> weekday d = 1 \<or> weekday d = 2 \<or> weekday d = 3
             \<or> weekday d = 4 \<or> weekday d = 5 \<or> weekday d = 6" by arith
  then show thesis using that by blast
qed

lemma strftime_A_Monday: "strftime_A d = ''Monday'' \<longleftrightarrow> weekday d = 0"
  by (cases d rule: weekday_cases) (simp_all add: strftime_A_def day_names_def)

lemma strftime_A_Wednesday: "strftime_A d = ''Wednesday'' \<longleftrightarrow> weekday d = 2"
  by (cases d rule: weekday_cases) (simp_all add: strftime_A_def day_names_def)

lemma strftime_A_nonempty: "strftime_A d \<noteq> []"
  by (cases d rule: weekday_cases) (simp_all add: strftime_A_def day_names_def)

lemma split_comma_Monday_Wednesday:
  "split_comma ''Monday,Wednesday'' = [''Monday'', ''Wednesday'']"
  by (simp add: split_comma_def)

lemma weekly_guard:
  "(w \<noteq> [] \<and> strftime_A d \<in> set (split_comma w)) \<longleftrightarrow> strftime_A d \<in> set (split_comma w)"
  using strftime_A_nonempty [of d] by (auto simp: split_comma_def)

text \<open>
  Claim C3: a task of the table is in the list of today's tasks exactly when it is One-time
  with due date today, or Daily, or Weekly with today's weekday name among its
  comma-separated week days, or Monthly with today's day of the month. A Weekly task with
  the days Monday and Wednesday is in the list exactly on Mondays and Wednesdays.
\<close>

theorem tasks_today_iff:
  "(t \<in> set (tasks_today today ts) \<longleftrightarrow> t \<in> set ts \<and> active_today_spec today t)
   \<and> (task_type t = Weekly \<and> week_days t = Some ''Monday,Wednesday'' \<longrightarrow>
        (t \<in> set (tasks_today today ts)
           \<longleftrightarrow> t \<in> set ts \<and> (weekday today = 0 \<or> weekday today = 2)))"
proof -
  have main: "t \<in> set (tasks_today today ts) \<longleftrightarrow> t \<in> set ts \<and> active_today_spec today t"
    by (cases "task_type t"; cases "week_days t")
       (auto simp: tasks_today_def active_today_spec_def Let_def weekly_guard)
  have "active_today_spec today t \<longleftrightarrow> weekday today = 0 \<or> weekday today = 2"
    if "task_type t = Weekly" "week_days t = Some ''Monday,Wednesday''"
    using that
    by (simp add: active_today_spec_def split_comma_Monday_Wednesday strftime_A_Monday
          strftime_A_Wednesday)
  with main show ?thesis by blast
qed

lemma ex_monday_weekday: "weekday ex_monday = 0"
  by (simp add: weekday_def ex_monday_ordinal)

theorem tasks_today_iff_witness:
  "task_type ex_weekly = Weekly \<and> week_days ex_weekly = Some ''Monday,Wednesday''
   \<and> weekday ex_monday = 0 \<and> weekday ex_today = 3
   \<and> ex_weekly \<in> set (tasks_today ex_monday [ex_daily, ex_weekly])
   \<and> ex_weekly \<notin> set (tasks_today ex_today [ex_daily, ex_weekly])
   \<and> active_today_spec ex_monday ex_weekly \<and> \<not> active_today_spec ex_today ex_weekly"
proof -
  have h: "task_type ex_weekly = Weekly \<and> week_days ex_weekly = Some ''Monday,Wednesday''"
    by (simp add: ex_weekly_def)
  have m: "ex_weekly \<in> set [ex_daily, ex_weekly]" by simp
  from tasks_today_iff [of ex_weekly ex_monday "[ex_daily, ex_weekly]"] h m ex_monday_weekday
  have a: "ex_weekly \<in> set (tasks_today ex_monday [ex_daily, ex_weekly])"
    "active_today_spec ex_monday ex_weekly" by blast+
  from tasks_today_iff [of ex_weekly ex_today "[ex_daily, ex_weekly]"] h m ex_today_weekday
  have b: "ex_weekly \<notin> set (tasks_today ex_today [ex_daily, ex_weekly])"
    "\<not> active_today_spec ex_today ex_weekly" by auto
  from h a b ex_monday_weekday ex_today_weekday show ?thesis by simp
qed

section \<open>The calendar dictionary\<close>

lemma map_fst_dict_append [simp]: "map fst (dict_append d t tbd) = map fst tbd"
  by (induction tbd) (auto simp: dict_append_def)

lemma cells_ok_dict_append:
  assumes "cells_ok P tbd" "P t d"
  shows "cells_ok P (dict_append d t tbd)"
  using assms by (fastforce simp: cells_ok_def dict_append_def split: if_splits)

lemma cells_ok_foldl:
  assumes "cells_ok P tbd" "\<And>d. Q d \<Longrightarrow> P t d"
  shows "cells_ok P (foldl (\<lambda>acc d. if Q d then dict_append d t acc else acc) tbd dr)"
  using assms(1)
proof (induction dr arbitrary: tbd)
  case Nil
  then show ?case by simp
next
  case (Cons d dr)
  show ?case
  proof (cases "Q d")
    case True
    then have "cells_ok P (dict_append d t tbd)"
      using Cons.prems assms(2) by (intro cells_ok_dict_append)
    then show ?thesis using True Cons.IH by simp
  next
    case False
    then show ?thesis using Cons by simp
  qed
qed

lemma map_fst_foldl:
  "map fst (foldl (\<lambda>acc d. if Q d then dict_append d t acc else acc) tbd dr) = map fst tbd"
  by (induction dr arbitrary: tbd) simp_all

lemma cells_ok_foldl_always:
  assumes "cells_ok P tbd" "\<And>d. P t d"
  shows "cells_ok P (foldl (\<lambda>acc d. dict_append d t acc) tbd dr)"
  using assms(1)
proof (induction dr arbitrary: tbd)
  case Nil
  then show ?case by simp
next
  case (Cons d dr)
  have "cells_ok P (dict_append d t tbd)"
    using Cons.prems assms(2) by (intro cells_ok_dict_append)
  then show ?case using Cons.IH by simp
qed

lemma map_fst_foldl_always:
  "map fst (foldl (\<lambda>acc d. dict_append d t acc) tbd dr) = map fst tbd"
  by (induction dr arbitrary: tbd) simp_all

lemma cells_ok_place_task:
  assumes "cells_ok P tbd" "\<And>d. placeable t d \<Longrightarrow> P t d"
  shows "cells_ok P (place_task dr tbd t)"
proof (cases "task_type t")
  case One_time
  then show ?thesis using assms
    by (auto simp: place_task_def placeable_def intro!: cells_ok_dict_append split: option.splits)
next
  case Daily
  have "cells_ok P (foldl (\<lambda>acc d. dict_append d t acc) tbd dr)"
    using assms Daily by (intro cells_ok_foldl_always) (simp_all add: placeable_def)
  then show ?thesis using Daily by (simp add: place_task_def)
next
  case Weekly
  show ?thesis
  proof (cases "week_days t")
    case None
    then show ?thesis using Weekly assms(1) by (simp add: place_task_def)
  next
    case (Some w)
    show ?thesis
    proof (cases "w = []")
      case True
      then show ?thesis using Weekly Some assms(1) by (simp add: place_task_def)
    next
      case False
      have "cells_ok P (foldl (\<lambda>acc d. if strftime_A d \<in> set (split_comma w)
                                        then dict_append d t acc else acc) tbd dr)"
        using assms Weekly Some False by (intro cells_ok_foldl) (simp_all add: placeable_def)
      then show ?thesis using Weekly Some False by (simp add: place_task_def Let_def)
    qed
  qed
next
  case Monthly
  show ?thesis
  proof (cases "monthly_date t")
    case None
    then show ?thesis using Monthly assms(1) by (simp add: place_task_def)
  next
    case (Some m)
    show ?thesis
    proof (cases "m = 0")
      case True
      then show ?thesis using Monthly Some assms(1) by (simp add: place_task_def)
    next
      case False
      have "cells_ok P (foldl (\<lambda>acc d. if day d = m then dict_append d t acc else acc) tbd dr)"
        using assms Monthly Some False by (intro cells_ok_foldl) (simp_all add: placeable_def)
      then show ?thesis using Monthly Some False by (simp add: place_task_def)
    qed
  qed
qed

lemma map_fst_place_task [simp]: "map fst (place_task dr tbd t) = map fst tbd"
  by (cases "task_type t"; cases "week_days t"; cases "monthly_date t"; cases "end_date t")
     (simp_all add: place_task_def map_fst_foldl map_fst_foldl_always Let_def)

lemma cells_ok_place_all:
  assumes "cells_ok P tbd" "\<And>t d. t \<in> set ts \<Longrightarrow> placeable t d \<Longrightarrow> P t d"
  shows "cells_ok P (foldl (place_task dr) tbd ts)"
  using assms
proof (induction ts arbitrary: tbd)
  case Nil
  then show ?case by simp
next
  case (Cons t ts)
  have "cells_ok P (place_task dr tbd t)"
    using Cons.prems by (intro cells_ok_place_task) simp_all
  then show ?case using Cons.IH Cons.prems(2) by simp
qed

lemma map_fst_place_all [simp]: "map fst (foldl (place_task dr) tbd ts) = map fst tbd"
  by (induction ts arbitrary: tbd) simp_all

lemma sequence_Inr:
  assumes "sequence xs = Inr vs"
  shows "map Inr vs = xs"
  using assms by (induction xs arbitrary: vs) (auto split: sum.splits)

lemma sequence_total:
  assumes "\<forall>x \<in> set xs. \<exists>v. x = Inr v"
  shows "\<exists>vs. sequence xs = Inr vs"
  using assms by (induction xs) (auto split: sum.splits)

lemma date_add_days_valid:
  assumes "date_add_days d k = Inr d'"
  shows "valid_date d'"
proof -
  from assms have "0 < toordinal d + k" "toordinal d + k \<le> MAXORDINAL" "d' = ord2ymd (toordinal d + k)"
    by (auto simp: date_add_days_def Let_def split: if_splits)
  then show ?thesis using ord2ymd_correct [of "toordinal d + k"] by simp
qed

lemma date_range_valid:
  assumes "date_range today = Inr dr" "d \<in> set dr"
  shows "valid_date d"
proof -
  from sequence_Inr [OF assms(1) [unfolded date_range_def]]
  have "Inr d \<in> set (map (\<lambda>x. date_add_days today (int x)) [0..<15])"
    using assms(2) by (metis image_eqI list.set_map)
  then obtain x where "date_add_days today (int x) = Inr d" by auto
  then show ?thesis by (rule date_add_days_valid)
qed

lemma date_range_total:
  assumes "valid_date today" "toordinal today + 14 \<le> MAXORDINAL"
  shows "\<exists>dr. date_range today = Inr dr"
  unfolding date_range_def
proof (rule sequence_total, clarsimp)
  fix x :: nat
  assume "x < 15"
  then have "1 \<le> toordinal today + int x" "toordinal today + int x \<le> MAXORDINAL"
    using toordinal_bounds [OF assms(1)] assms(2) by linarith+
  then show "\<exists>v. date_add_days today (int x) = Inr v" using date_add_days_ok by blast
qed

lemma grid_cells:
  assumes "create_calendar_view today ts = Inr (Grid g)"
  shows "cells_ok (\<lambda>t d. t \<in> set ts \<and> end_date t \<noteq> None \<and> placeable t d) g
         \<and> (\<forall>d \<in> fst ` set g. valid_date d)"
proof -
  define act where "act = filter (\<lambda>t. end_date t \<noteq> None) ts"
  from assms obtain dr where dr: "date_range today = Inr dr"
    and g: "g = foldl (place_task dr) (map (\<lambda>d. (d, [])) dr) act"
    by (auto simp: create_calendar_view_def Let_def act_def split: if_splits sum.splits)
  have "cells_ok (\<lambda>t d. t \<in> set ts \<and> end_date t \<noteq> None \<and> placeable t d) (map (\<lambda>d. (d, [])) dr)"
    by (auto simp: cells_ok_def)
  then have a: "cells_ok (\<lambda>t d. t \<in> set ts \<and> end_date t \<noteq> None \<and> placeable t d) g"
    unfolding g by (rule cells_ok_place_all) (simp add: act_def)
  have "map fst g = dr" unfolding g by (simp add: comp_def)
  then have "fst ` set g = set dr" by (metis list.set_map)
  then have b: "\<forall>d \<in> fst ` set g. valid_date d" using date_range_valid [OF dr] by simp
  from a b show ?thesis ..
qed

section \<open>Monthly tasks and the calendar grid\<close>

text \<open>
  Claim C4: on no date of a month of 30 days is a Monthly task with day-of-month 31 among
  today's tasks, nor in the calendar cell of such a date; the day is compared as it is.
\<close>

theorem monthly_31_skips_30_day_month:
  assumes "task_type t = Monthly" and "monthly_date t = Some 31"
    and "valid_date d" and "days_in_month (year d) (month d) = 30"
  shows "t \<notin> set (tasks_today d ts)
         \<and> (\<forall>ref g c. create_calendar_view ref ts = Inr (Grid g) \<and> (d, c) \<in> set g \<longrightarrow> t \<notin> set c)"
proof -
  from assms(3,4) have d30: "day d \<le> 30" by (simp add: valid_date_def)
  have a: "t \<notin> set (tasks_today d ts)"
    using assms(1,2) d30 by (auto simp: tasks_today_def Let_def)
  have b: "t \<notin> set c" if "create_calendar_view ref ts = Inr (Grid g)" "(d, c) \<in> set g" for ref g c
  proof
    assume "t \<in> set c"
    with grid_cells [OF that(1)] that(2) have "placeable t d"
      by (auto simp: cells_ok_def)
    then show False using assms(1,2) d30 by (simp add: placeable_def)
  qed
  from a b show ?thesis by blast
qed

lemma grid_length:
  assumes "create_calendar_view today ts = Inr (Grid g)"
  shows "length g = 15"
proof -
  from assms obtain dr where dr: "date_range today = Inr dr"
    and g: "g = foldl (place_task dr) (map (\<lambda>d. (d, [])) dr) (filter (\<lambda>t. end_date t \<noteq> None) ts)"
    by (auto simp: create_calendar_view_def Let_def split: if_splits sum.splits)
  have "map fst g = dr" unfolding g by (simp add: comp_def)
  then have "length g = length dr" by (metis length_map)
  also have "length dr = length (map (Inr :: date \<Rightarrow> error + date) dr)" by simp
  also have "\<dots> = 15" using sequence_Inr [OF dr [unfolded date_range_def]] by simp
  finally show ?thesis .
qed

text \<open>
  Claim C10: the calendar view shows either the notice that no task has a due date, when
  every task has a \<^verbatim>\<open>NULL\<close> end date, or a grid of 15 days whose cells hold only
  tasks of the list with an end date. A task without one, recurring or not, is in no cell.
\<close>

theorem calendar_excludes_tasks_without_end_date:
  assumes "valid_date today" and "toordinal today + 14 \<le> MAXORDINAL"
  shows "\<exists>cal. create_calendar_view today ts = Inr cal
           \<and> (case cal of
                 No_tasks_info \<Rightarrow> (\<forall>t \<in> set ts. end_date t = None)
               | Grid g \<Rightarrow> length g = 15
                           \<and> (\<forall>(d, c) \<in> set g. \<forall>t \<in> set c. t \<in> set ts \<and> end_date t \<noteq> None))"
proof (cases "filter (\<lambda>t. end_date t \<noteq> None) ts = []")
  case True
  then have "create_calendar_view today ts = Inr No_tasks_info"
    by (simp add: create_calendar_view_def)
  moreover have "\<forall>t \<in> set ts. end_date t = None"
    using True by (auto simp: filter_empty_conv)
  ultimately show ?thesis by simp
next
  case False
  from date_range_total [OF assms] obtain dr where dr: "date_range today = Inr dr" ..
  define g where "g = foldl (place_task dr) (map (\<lambda>d. (d, [])) dr) (filter (\<lambda>t. end_date t \<noteq> None) ts)"
  have cv: "create_calendar_view today ts = Inr (Grid g)"
    using False dr by (simp add: create_calendar_view_def g_def)
  have "\<forall>(d, c) \<in> set g. \<forall>t \<in> set c. t \<in> set ts \<and> end_date t \<noteq> None"
    using grid_cells [OF cv] by (fastforce simp: cells_ok_def)
  then show ?thesis using cv grid_length [OF cv] by simp
qed

lemma ex_april30_valid: "valid_date ex_april30"
  by (simp add: valid_date_def ex_april30_def MINYEAR_def MAXYEAR_def days_in_month_def
        DAYS_IN_MONTH_def)

lemma ex_april_days: "days_in_month (year ex_april30) (month ex_april30) = 30"
  by (simp add: ex_april30_def days_in_month_def DAYS_IN_MONTH_def)

lemma upt_15: "[0..<15] = [0, 1, 2, 3, 4, 5, 6, 7, 8, 9, 10, 11, 12, 13, 14]"
  by code_simp

lemma ex_date_range: "date_range ex_today = Inr ex_range"
  by (simp add: date_range_def upt_15 date_add_days_def ex_today_ordinal MAXORDINAL_def
        ex_range_def ord2ymd_def Let_def DAYS_BEFORE_MONTH_def DAYS_IN_MONTH_def)

lemma ex_calendar_10:
  "create_calendar_view ex_today [ex_daily, ex_one_time] = Inr (Grid ex_grid)"
  by (simp add: create_calendar_view_def ex_date_range ex_daily_def ex_one_time_def)
     (simp add: ex_range_def ex_grid_def place_task_def dict_append_def ex_sunday_def
        ex_one_time_def)

lemma ex_calendar_4:
  "create_calendar_view ex_today [ex_month31, ex_one_time] = Inr (Grid ex_grid)"
  by (simp add: create_calendar_view_def ex_date_range ex_month31_def ex_one_time_def)
     (simp add: ex_range_def ex_grid_def place_task_def dict_append_def ex_sunday_def
        ex_one_time_def)

theorem monthly_31_skips_30_day_month_witness:
  "task_type ex_month31 = Monthly \<and> monthly_date ex_month31 = Some 31
   \<and> valid_date ex_april30 \<and> days_in_month (year ex_april30) (month ex_april30) = 30
   \<and> ex_month31 \<notin> set (tasks_today ex_april30 [ex_month31, ex_one_time])
   \<and> create_calendar_view ex_today [ex_month31, ex_one_time] = Inr (Grid ex_grid)
   \<and> (ex_april30, []) \<in> set ex_grid"
proof -
  have h: "task_type ex_month31 = Monthly" "monthly_date ex_month31 = Some 31"
    by (simp_all add: ex_month31_def)
  have c: "(ex_april30, []) \<in> set ex_grid"
    by (simp add: ex_grid_def ex_range_def ex_april30_def ex_sunday_def)
  from monthly_31_skips_30_day_month [OF h ex_april30_valid ex_april_days,
      of "[ex_month31, ex_one_time]"]
  have "ex_month31 \<notin> set (tasks_today ex_april30 [ex_month31, ex_one_time])" by blast
  with h ex_april30_valid ex_april_days ex_calendar_4 c show ?thesis by simp
qed

theorem calendar_excludes_tasks_without_end_date_witness:
  "valid_date ex_today \<and> toordinal ex_today + 14 \<le> MAXORDINAL
   \<and> end_date ex_daily = None
   \<and> ex_daily \<in> set (tasks_today ex_today [ex_daily, ex_one_time])
   \<and> create_calendar_view ex_today [ex_daily, ex_one_time] = Inr (Grid ex_grid)
   \<and> length ex_grid = 15
   \<and> ex_daily \<notin> set (concat (map snd ex_grid))"
proof -
  have h: "toordinal ex_today + 14 \<le> MAXORDINAL"
    by (simp add: ex_today_ordinal MAXORDINAL_def)
  have n: "end_date ex_daily = None" by (simp add: ex_daily_def)
  have a: "ex_daily \<in> set (tasks_today ex_today [ex_daily, ex_one_time])"
    by (simp add: tasks_today_def ex_daily_def ex_one_time_def)
  from calendar_excludes_tasks_without_end_date [OF ex_today_valid h,
      of "[ex_daily, ex_one_time]"] ex_calendar_10
  have g: "length ex_grid = 15"
    "\<forall>(d, c) \<in> set ex_grid. \<forall>t \<in> set c. t \<in> set [ex_daily, ex_one_time] \<and> end_date t \<noteq> None"
    by simp_all
  from g(2) n have "ex_daily \<notin> set (concat (map snd ex_grid))" by fastforce
  with ex_today_valid h n a ex_calendar_10 g(1) show ?thesis by simp
qed

end
